theory Spec2Isabelle
  imports Complex_Main "HOL-Library.AList" "HOL-Library.Log_Nat"
begin

section \<open>Tab Harvester: the \<open>POST /api/summarize\<close> pipeline of \<open>src/main.py\<close>\<close>

text \<open>
  The development embeds the request handler \<open>summarize_tab\<close> and the two pydantic models
  of \<open>src/main.py\<close>. Python values that are decoded from JSON (the model's answer, the
  rows of the store) are dynamically typed and are values of \<open>jval\<close>. A Python \<open>str\<close> is a
  \<open>string\<close>; one \<open>char\<close> stands for one code point. A Python \<open>float\<close> is a binary64
  value, held as the rational number it denotes: every float operation computes the exact
  result and rounds it to the nearest binary64 value, a tie to the even one (\<open>fl\<close>).
\<close>

subsection \<open>Python values and exceptions\<close>

datatype jval =
    JNull
  | JBool bool
  | JInt int
  | JFloat rat
  | JString string
  | JArray "jval list"
  | JObject "(string \<times> jval) list"

text \<open>A Python \<open>dict\<close> with string keys, and a row of a table of the store.\<close>

type_synonym row = "(string \<times> jval) list"

text \<open>
  The classes of \<open>Exception\<close> that the handler raises itself or tells apart; \<open>OtherError\<close>
  is any other subclass of \<open>Exception\<close>. The string of \<open>Exn\<close> is \<open>str(e)\<close>.
\<close>

datatype exn_class =
    JSONDecodeError
  | IndexError
  | AttributeError
  | ValueError
  | KeyError
  | TypeError
  | UnboundLocalError
  | OverflowError
  | ValidationError
  | OtherError

datatype exn = Exn exn_class string

fun exn_cls :: "exn \<Rightarrow> exn_class" where
  "exn_cls (Exn c m) = c"

fun str_exn :: "exn \<Rightarrow> string" where
  "str_exn (Exn c m) = m"

text \<open>The name Python prints for the type of a value, as in \<open>type(v).__name__\<close>.\<close>

fun type_name :: "jval \<Rightarrow> string" where
  "type_name JNull = ''NoneType''"
| "type_name (JBool b) = ''bool''"
| "type_name (JInt n) = ''int''"
| "type_name (JFloat x) = ''float''"
| "type_name (JString s) = ''str''"
| "type_name (JArray vs) = ''list''"
| "type_name (JObject kvs) = ''dict''"

text \<open>Truth value of a Python object, as \<open>not summary\<close> tests it.\<close>

fun truthy :: "jval \<Rightarrow> bool" where
  "truthy JNull = False"
| "truthy (JBool b) = b"
| "truthy (JInt n) = (n \<noteq> 0)"
| "truthy (JFloat x) = (x \<noteq> 0)"
| "truthy (JString s) = (s \<noteq> [])"
| "truthy (JArray vs) = (vs \<noteq> [])"
| "truthy (JObject kvs) = (kvs \<noteq> [])"

text \<open>\<open>isinstance(v, list)\<close>.\<close>

fun isinstance_list :: "jval \<Rightarrow> bool" where
  "isinstance_list (JArray vs) = True"
| "isinstance_list v = False"

text \<open>\<open>d[k]\<close> on a dict: a missing key raises \<open>KeyError\<close>, whose \<open>str\<close> is the key's \<open>repr\<close>.\<close>

definition getitem :: "row \<Rightarrow> string \<Rightarrow> exn + jval" where
  "getitem d k =
     (case map_of d k of
        None \<Rightarrow> Inl (Exn KeyError ([CHR 0x27] @ k @ [CHR 0x27]))
      | Some v \<Rightarrow> Inr v)"

text \<open>
  \<open>result.get(k, default)\<close>: only a dict has the method; on any other decoded value the
  attribute lookup raises \<open>AttributeError\<close>.
\<close>

definition dict_get :: "jval \<Rightarrow> string \<Rightarrow> jval \<Rightarrow> exn + jval" where
  "dict_get result k dflt =
     (case result of
        JObject kvs \<Rightarrow> (case map_of kvs k of None \<Rightarrow> Inr dflt | Some v \<Rightarrow> Inr v)
      | _ \<Rightarrow> Inl (Exn AttributeError
                 ([CHR 0x27] @ type_name result @ [CHR 0x27] @ '' object has no attribute ''
                  @ [CHR 0x27] @ ''get'' @ [CHR 0x27])))"

subsection \<open>Floats\<close>

text \<open>Rounding to the nearest integer, a tie to the even one.\<close>

definition round_half_even :: "rat \<Rightarrow> int" where
  "round_half_even y =
     (let f = \<lfloor>y\<rfloor>; d = y - of_int f
      in if d < 1 / 2 then f else if 1 / 2 < d then f + 1 else if even f then f else f + 1)"

text \<open>The binary exponent of a number \<open>z\<close> that is not zero: \<open>2 ^ expo z \<le> \<bar>z\<bar> < 2 ^ (expo z + 1)\<close>.\<close>

definition expo :: "rat \<Rightarrow> int" where
  "expo z = (if 1 \<le> \<bar>z\<bar> then bitlen \<lfloor>\<bar>z\<bar>\<rfloor> - 1 else - bitlen (\<lceil>1 / \<bar>z\<bar>\<rceil> - 1))"

text \<open>
  The exponent of the last of the 53 bits of a binary64 value near \<open>z\<close>; it is never below
  that of the subnormal values.
\<close>

definition ulp_exp :: "rat \<Rightarrow> int" where
  "ulp_exp z = max (expo z - 52) (- 1074)"

text \<open>
  The binary64 value nearest to \<open>z\<close>, a tie to the one with the even last bit. The
  rounding itself has no upper bound on the exponent. The conversion of an \<open>int\<close>, which can
  leave the range of binary64, tests the bound; the sums and the rounding of the handler
  cannot leave it (\<open>is_float_add\<close>, \<open>is_float_round2_add\<close> below: adding at most 400 to a
  binary64 value, and rounding that to two decimals, gives a binary64 value again).
\<close>

definition fl :: "rat \<Rightarrow> rat" where
  "fl z = (if z = 0 then 0 else of_int (round_half_even (z / 2 powi ulp_exp z)) * 2 powi ulp_exp z)"

text \<open>The conversion of an \<open>int\<close> operand to \<open>float\<close>.\<close>

definition float_of_int :: "int \<Rightarrow> exn + rat" where
  "float_of_int a =
     (if \<bar>fl (of_int a)\<bar> < 2 ^ 1024 then Inr (fl (of_int a))
      else Inl (Exn OverflowError ''int too large to convert to float''))"

text \<open>
  \<open>v + n\<close> with an \<open>int\<close> literal \<open>n\<close> on the right. \<open>bool\<close> is a subclass of \<open>int\<close>; a
  \<open>float\<close> on the left makes the sum a float; a \<open>str\<close> or a \<open>list\<close> on the left asks for
  concatenation.
\<close>

fun add_int :: "jval \<Rightarrow> int \<Rightarrow> exn + jval" where
  "add_int (JInt a) n = Inr (JInt (a + n))"
| "add_int (JBool b) n = Inr (JInt ((if b then 1 else 0) + n))"
| "add_int (JFloat x) n =
     (case float_of_int n of Inl e \<Rightarrow> Inl e | Inr y \<Rightarrow> Inr (JFloat (fl (x + y))))"
| \<open>add_int (JString s) n = Inl (Exn TypeError ''can only concatenate str (not "int") to str'')\<close>
| \<open>add_int (JArray vs) n = Inl (Exn TypeError ''can only concatenate list (not "int") to list'')\<close>
| "add_int v n = Inl (Exn TypeError
     (''unsupported operand type(s) for +: '' @ [CHR 0x27] @ type_name v @ [CHR 0x27]
      @ '' and '' @ [CHR 0x27] @ ''int'' @ [CHR 0x27]))"

text \<open>
  \<open>v + x\<close> with a \<open>float\<close> \<open>x\<close> on the right: an \<open>int\<close> on the left is converted first,
  and the sum of the two floats is rounded.
\<close>

fun add_float :: "jval \<Rightarrow> rat \<Rightarrow> exn + rat" where
  "add_float (JInt a) x =
     (case float_of_int a of Inl e \<Rightarrow> Inl e | Inr y \<Rightarrow> Inr (fl (y + x)))"
| "add_float (JBool b) x = Inr (fl ((if b then 1 else 0) + x))"
| "add_float (JFloat y) x = Inr (fl (y + x))"
| \<open>add_float (JString s) x = Inl (Exn TypeError ''can only concatenate str (not "float") to str'')\<close>
| \<open>add_float (JArray vs) x = Inl (Exn TypeError ''can only concatenate list (not "float") to list'')\<close>
| "add_float v x = Inl (Exn TypeError
     (''unsupported operand type(s) for +: '' @ [CHR 0x27] @ type_name v @ [CHR 0x27]
      @ '' and '' @ [CHR 0x27] @ ''float'' @ [CHR 0x27]))"

text \<open>
  \<open>round(x, 2)\<close> on a float: the exact value of \<open>x\<close> is rounded to a multiple of 1/100, a
  tie to the even one, and the float nearest to that decimal is the result.
\<close>

definition round2 :: "rat \<Rightarrow> rat" where
  "round2 x = fl (of_int (round_half_even (x * 100)) / 100)"

text \<open>The float literal \<open>0.18\<close> of the source.\<close>

definition literal_0_18 :: rat where
  "literal_0_18 = fl (18 / 100)"

text \<open>The numeric value of a number of the store.\<close>

fun number :: "jval \<Rightarrow> rat option" where
  "number (JInt n) = Some (of_int n)"
| "number (JFloat x) = Some x"
| "number v = None"

text \<open>A binary64 value: rounding leaves it as it is, and it is in the range of the format.\<close>

definition is_float :: "rat \<Rightarrow> bool" where
  "is_float x = (fl x = x \<and> \<bar>x\<bar> < 2 ^ 1024)"

text \<open>The largest binary64 value, \<open>sys.float_info.max\<close>.\<close>

definition max_float :: rat where
  "max_float = (2 ^ 53 - 1) * 2 ^ 971"

text \<open>A JSON number as Python holds it after decoding: an \<open>int\<close>, or a \<open>float\<close>.\<close>

fun stored_number :: "jval \<Rightarrow> bool" where
  "stored_number (JInt n) = True"
| "stored_number (JFloat x) = is_float x"
| "stored_number v = False"

subsection \<open>String methods\<close>

definition nl :: char where
  "nl = CHR 0x0A"

definition fence :: string where
  "fence = ''```''"

text \<open>\<open>str.isspace\<close> on one code point below 256.\<close>

definition isspace :: "char \<Rightarrow> bool" where
  "isspace c = (of_char c \<in> {9, 10, 11, 12, 13, 28, 29, 30, 31, 32, 133, 160 :: nat})"

definition lstrip :: "string \<Rightarrow> string" where
  "lstrip s = dropWhile isspace s"

definition rstrip :: "string \<Rightarrow> string" where
  "rstrip s = rev (dropWhile isspace (rev s))"

definition strip :: "string \<Rightarrow> string" where
  "strip s = lstrip (rstrip s)"

definition startswith :: "string \<Rightarrow> string \<Rightarrow> bool" where
  "startswith s p = (take (length p) s = p)"

text \<open>\<open>s.split("\n", 1)\<close>: one piece when there is no line break, two otherwise.\<close>

definition split1 :: "char \<Rightarrow> string \<Rightarrow> string list" where
  "split1 c s =
     (if c \<in> set s then [takeWhile (\<lambda>x. x \<noteq> c) s, tl (dropWhile (\<lambda>x. x \<noteq> c) s)] else [s])"

text \<open>\<open>s.rfind(sep)\<close>: the highest index at which \<open>sep\<close> occurs in \<open>s\<close>.\<close>

fun rfind :: "string \<Rightarrow> string \<Rightarrow> nat option" where
  "rfind sep [] = (if sep = [] then Some 0 else None)"
| "rfind sep (c # cs) =
     (case rfind sep cs of
        Some i \<Rightarrow> Some (Suc i)
      | None \<Rightarrow> if startswith (c # cs) sep then Some 0 else None)"

text \<open>\<open>s.rsplit(sep, 1)\<close>: split at the last occurrence of \<open>sep\<close>, if there is one.\<close>

definition rsplit1 :: "string \<Rightarrow> string \<Rightarrow> string list" where
  "rsplit1 sep s =
     (case rfind sep s of
        None \<Rightarrow> [s]
      | Some i \<Rightarrow> [take i s, drop (i + length sep) s])"

text \<open>\<open>xs[i]\<close> on a list, for an index that is not negative.\<close>

definition index :: "'a list \<Rightarrow> nat \<Rightarrow> exn + 'a" where
  "index xs i = (if i < length xs then Inr (xs ! i) else Inl (Exn IndexError ''list index out of range''))"

subsection \<open>The pydantic models\<close>

text \<open>
  \<open>SummarizeRequest\<close> declares three fields of type \<open>str\<close> and no other constraint. The
  framework builds it from the decoded request body before the handler runs; a body that is
  not an object, or in which one of the fields is missing or is not a string, is refused
  there and the handler is not called.
\<close>

record SummarizeRequest =
  url :: string
  title :: string
  content :: string

definition str_field :: "row \<Rightarrow> string \<Rightarrow> string option" where
  "str_field kvs k = (case map_of kvs k of Some (JString s) \<Rightarrow> Some s | _ \<Rightarrow> None)"

definition validate_request :: "jval \<Rightarrow> SummarizeRequest option" where
  "validate_request body =
     (case body of
        JObject kvs \<Rightarrow>
          (case str_field kvs ''url'' of
             None \<Rightarrow> None
           | Some u \<Rightarrow>
               (case str_field kvs ''title'' of
                  None \<Rightarrow> None
                | Some t \<Rightarrow>
                    (case str_field kvs ''content'' of
                       None \<Rightarrow> None
                     | Some c \<Rightarrow> Some \<lparr>url = u, title = t, content = c\<rparr>)))
      | _ \<Rightarrow> None)"

text \<open>
  \<open>SummarizeResponse\<close> declares \<open>status: str\<close>, \<open>summary: str\<close> and \<open>tags: list[str]\<close>. The
  constructor validates its arguments: a summary that is not a string, and tags that are
  not a list of strings, raise \<open>ValidationError\<close> (\<open>None\<close> here).
\<close>

record SummarizeResponse =
  status :: string
  summary :: string
  tags :: "string list"

fun str_items :: "jval list \<Rightarrow> string list option" where
  "str_items [] = Some []"
| "str_items (JString s # vs) = (case str_items vs of None \<Rightarrow> None | Some ss \<Rightarrow> Some (s # ss))"
| "str_items (v # vs) = None"

fun new_SummarizeResponse :: "string \<Rightarrow> jval \<Rightarrow> jval \<Rightarrow> SummarizeResponse option" where
  "new_SummarizeResponse st (JString s) (JArray vs) =
     (case str_items vs of
        None \<Rightarrow> None
      | Some ss \<Rightarrow> Some \<lparr>status = st, summary = s, tags = ss\<rparr>)"
| "new_SummarizeResponse st sm tg = None"

subsection \<open>The collaborators and the state outside the handler\<close>

text \<open>
  The model client, the JSON decoder of the standard library, the store client and the
  clock are not code of the repository. One request sees them as an \<open>env\<close>:
  \<^item> \<open>generate_content\<close>: \<open>model.generate_content(prompt)\<close> followed by \<open>response.text\<close>,
    the text or the exception raised by either;
  \<^item> \<open>json_loads\<close>: \<open>json.loads\<close>, the decoded value or the exception it raises;
  \<^item> \<open>insert_execute\<close>, \<open>select_execute\<close>, \<open>update_execute\<close>: the exception the store
    client raises on this request's insert, select and update, if it raises one; a call
    that raises leaves the table as it was;
  \<^item> \<open>single_no_row\<close>: the exception of \<open>.single()\<close> when the select finds no row;
  \<^item> \<open>utcnow_isoformat\<close>: \<open>datetime.now(timezone.utc).isoformat()\<close>.
\<close>

record env =
  generate_content :: "string \<Rightarrow> exn + string"
  json_loads :: "string \<Rightarrow> exn + jval"
  insert_execute :: "exn option"
  select_execute :: "exn option"
  single_no_row :: exn
  update_execute :: "exn option"
  utcnow_isoformat :: string

text \<open>A call that reaches a collaborator over the network, with its arguments.\<close>

datatype call =
    Generate string
  | Insert row
  | Select
  | Update row jval

text \<open>A line written by \<open>print\<close>.\<close>

datatype line =
    MetricsUpdateFailed exn
  | Archived string string

text \<open>
  The two tables of the store, the calls made so far (also those that raised) and the
  printed lines.
\<close>

record world =
  archived_tabs :: "row list"
  system_metrics :: "row list"
  calls :: "call list"
  printed :: "line list"

text \<open>
  What the framework gets back from the route: the returned response (status 200), an
  \<open>HTTPException\<close> with its status code and detail, an exception of the given class that
  leaves the handler uncaught (status 500), or the refusal of the request body.
\<close>

datatype outcome =
    Returned SummarizeResponse
  | HTTPException nat string
  | Uncaught exn_class
  | RequestValidationError

subsection \<open>Step 1: the summary from the model\<close>

definition user_prompt :: "SummarizeRequest \<Rightarrow> string" where
  "user_prompt payload =
     ''Title: '' @ title payload @ [nl] @
     ''URL: '' @ url payload @ [nl, nl] @
     ''Page content:'' @ [nl] @ take 30000 (content payload)"

text \<open>
  An exception raised inside the \<open>try\<close> block comes with the value of the local variable
  \<open>raw_text\<close> at that moment, \<open>None\<close> while it is not bound yet.
\<close>

type_synonym raised = "exn \<times> string option"

text \<open>The removal of the markdown fences; the result is the new value of \<open>raw_text\<close>.\<close>

definition strip_fences :: "string \<Rightarrow> raised + string" where
  "strip_fences raw_text =
     (if startswith raw_text fence then
        (case index (split1 nl raw_text) 1 of
           Inl e \<Rightarrow> Inl (e, Some raw_text)
         | Inr r1 \<Rightarrow>
             (case index (rsplit1 fence r1) 0 of
                Inl e \<Rightarrow> Inl (e, Some r1)
              | Inr r2 \<Rightarrow> Inr (strip r2)))
      else Inr raw_text)"

text \<open>The body of the \<open>try\<close> block from \<open>response.text.strip()\<close> on.\<close>

definition parse_model_text :: "(string \<Rightarrow> exn + jval) \<Rightarrow> string \<Rightarrow> raised + jval \<times> jval" where
  "parse_model_text loads text =
     (case strip_fences (strip text) of
        Inl r \<Rightarrow> Inl r
      | Inr raw_text \<Rightarrow>
          (case loads raw_text of
             Inl e \<Rightarrow> Inl (e, Some raw_text)
           | Inr result \<Rightarrow>
               (case dict_get result ''summary'' (JString []) of
                  Inl e \<Rightarrow> Inl (e, Some raw_text)
                | Inr sm \<Rightarrow>
                    (case dict_get result ''tags'' (JArray []) of
                       Inl e \<Rightarrow> Inl (e, Some raw_text)
                     | Inr tg \<Rightarrow>
                         if \<not> truthy sm \<or> \<not> isinstance_list tg
                         then Inl (Exn ValueError ''Model returned unexpected structure'',
                                   Some raw_text)
                         else Inr (sm, tg)))))"

definition try_block :: "env \<Rightarrow> SummarizeRequest \<Rightarrow> raised + jval \<times> jval" where
  "try_block e payload =
     (case generate_content e (user_prompt payload) of
        Inl x \<Rightarrow> Inl (x, None)
      | Inr text \<Rightarrow> parse_model_text (json_loads e) text)"

text \<open>
  The two \<open>except\<close> clauses. The first one reads \<open>raw_text\<close>: when that variable is not
  bound, the clause raises \<open>UnboundLocalError\<close> itself, which no clause catches.
\<close>

definition except_clauses :: "raised \<Rightarrow> outcome" where
  "except_clauses r =
     (case r of (x, rt) \<Rightarrow>
        if exn_cls x = JSONDecodeError then
          (case rt of
             None \<Rightarrow> Uncaught UnboundLocalError
           | Some raw_text \<Rightarrow>
               HTTPException 502 (''Gemini returned non-JSON response: '' @ take 200 raw_text))
        else HTTPException 502 (''Vertex AI error: '' @ str_exn x))"

definition generate_summary :: "env \<Rightarrow> SummarizeRequest \<Rightarrow> outcome + jval \<times> jval" where
  "generate_summary e payload =
     (case try_block e payload of
        Inl r \<Rightarrow> Inl (except_clauses r)
      | Inr st \<Rightarrow> Inr st)"

subsection \<open>Step 2: the insert into \<open>archived_tabs\<close>\<close>

definition archived_tab :: "env \<Rightarrow> SummarizeRequest \<Rightarrow> jval \<Rightarrow> jval \<Rightarrow> row" where
  "archived_tab e payload sm tg =
     [(''url'', JString (url payload)),
      (''title'', JString (title payload)),
      (''summary'', sm),
      (''tags'', tg),
      (''archived_at'', JString (utcnow_isoformat e))]"

definition insert_archived_tab ::
    "env \<Rightarrow> SummarizeRequest \<Rightarrow> jval \<Rightarrow> jval \<Rightarrow> world \<Rightarrow> outcome option \<times> world" where
  "insert_archived_tab e payload sm tg w =
     (let r = archived_tab e payload sm tg;
          w1 = w\<lparr>calls := calls w @ [Insert r]\<rparr>
      in case insert_execute e of
           Some x \<Rightarrow> (Some (HTTPException 500 (''Supabase insert error: '' @ str_exn x)), w1)
         | None \<Rightarrow> (None, w1\<lparr>archived_tabs := archived_tabs w1 @ [r]\<rparr>))"

subsection \<open>Step 3: the counters of \<open>system_metrics\<close>\<close>

text \<open>\<open>select("*").limit(1).single().execute()\<close> and \<open>metrics.data\<close>.\<close>

definition select_single :: "env \<Rightarrow> world \<Rightarrow> (exn + row) \<times> world" where
  "select_single e w =
     (let w1 = w\<lparr>calls := calls w @ [Select]\<rparr>
      in case select_execute e of
           Some x \<Rightarrow> (Inl x, w1)
         | None \<Rightarrow>
             (case system_metrics w of
                [] \<Rightarrow> (Inl (single_no_row e), w1)
              | current # rest \<Rightarrow> (Inr current, w1)))"

text \<open>
  The argument of \<open>update\<close> and the argument of \<open>eq\<close>, evaluated in the order of the source.
\<close>

definition update_arguments :: "row \<Rightarrow> exn + row \<times> jval" where
  "update_arguments current =
     (case getitem current ''total_tabs_closed'' of
        Inl x \<Rightarrow> Inl x
      | Inr v1 \<Rightarrow>
     (case add_int v1 1 of
        Inl x \<Rightarrow> Inl x
      | Inr t \<Rightarrow>
     (case getitem current ''total_ram_saved_mb'' of
        Inl x \<Rightarrow> Inl x
      | Inr v2 \<Rightarrow>
     (case add_int v2 400 of
        Inl x \<Rightarrow> Inl x
      | Inr r \<Rightarrow>
     (case getitem current ''total_power_saved_watts'' of
        Inl x \<Rightarrow> Inl x
      | Inr v3 \<Rightarrow>
     (case add_float v3 literal_0_18 of
        Inl x \<Rightarrow> Inl x
      | Inr p \<Rightarrow>
     (case getitem current ''id'' of
        Inl x \<Rightarrow> Inl x
      | Inr i \<Rightarrow>
          Inr ([(''total_tabs_closed'', t),
                (''total_ram_saved_mb'', r),
                (''total_power_saved_watts'', JFloat (round2 p))], i))))))))"

text \<open>The store sets the given columns in every row whose \<open>id\<close> is the given one.\<close>

definition set_fields :: "row \<Rightarrow> row \<Rightarrow> row" where
  "set_fields cols r = fold (\<lambda>(k, v). AList.update k v) cols r"

definition update_eq_id :: "env \<Rightarrow> row \<Rightarrow> jval \<Rightarrow> world \<Rightarrow> exn option \<times> world" where
  "update_eq_id e cols i w =
     (let w1 = w\<lparr>calls := calls w @ [Update cols i]\<rparr>
      in case update_execute e of
           Some x \<Rightarrow> (Some x, w1)
         | None \<Rightarrow>
             (None, w1\<lparr>system_metrics :=
                map (\<lambda>r. if map_of r ''id'' = Some i then set_fields cols r else r)
                  (system_metrics w1)\<rparr>))"

text \<open>The second half of the step: from the row that was read to the update.\<close>

definition write_metrics :: "env \<Rightarrow> row \<Rightarrow> world \<Rightarrow> exn option \<times> world" where
  "write_metrics e current w =
     (case update_arguments current of
        Inl x \<Rightarrow> (Some x, w)
      | Inr (cols, i) \<Rightarrow> update_eq_id e cols i w)"

definition increment_system_metrics :: "env \<Rightarrow> world \<Rightarrow> exn option \<times> world" where
  "increment_system_metrics e w =
     (case select_single e w of
        (Inl x, w1) \<Rightarrow> (Some x, w1)
      | (Inr current, w1) \<Rightarrow> write_metrics e current w1)"

subsection \<open>The handler and the route\<close>

definition summarize_tab :: "env \<Rightarrow> SummarizeRequest \<Rightarrow> world \<Rightarrow> outcome \<times> world" where
  "summarize_tab e payload w =
     (let w1 = w\<lparr>calls := calls w @ [Generate (user_prompt payload)]\<rparr>
      in case generate_summary e payload of
           Inl out \<Rightarrow> (out, w1)
         | Inr (sm, tg) \<Rightarrow>
             (case insert_archived_tab e payload sm tg w1 of
                (Some out, w2) \<Rightarrow> (out, w2)
              | (None, w2) \<Rightarrow>
                  (case increment_system_metrics e w2 of
                     (r, w3) \<Rightarrow>
                       (let w4 = (case r of
                                    Some x \<Rightarrow> w3\<lparr>printed := printed w3 @ [MetricsUpdateFailed x]\<rparr>
                                  | None \<Rightarrow> w3);
                            w5 = w4\<lparr>printed := printed w4 @ [Archived (title payload) (url payload)]\<rparr>
                        in case new_SummarizeResponse ''ok'' sm tg of
                             None \<Rightarrow> (Uncaught ValidationError, w5)
                           | Some response \<Rightarrow> (Returned response, w5)))))"

definition post_api_summarize :: "env \<Rightarrow> jval \<Rightarrow> world \<Rightarrow> outcome \<times> world" where
  "post_api_summarize e body w =
     (case validate_request body of
        None \<Rightarrow> (RequestValidationError, w)
      | Some payload \<Rightarrow> summarize_tab e payload w)"

subsection \<open>Concurrent requests on the metrics row\<close>

text \<open>
  Between the select and the update of one request the store serves the other requests.
  A schedule lists, in the order in which the store serves them, the select
  (\<open>ReadMetrics i\<close>) and the update (\<open>WriteMetrics i\<close>) of the requests \<open>i\<close>; each request
  keeps the row it has read in its own local variable \<open>current\<close>.
\<close>

datatype step =
    ReadMetrics nat
  | WriteMetrics nat

fun request_of :: "step \<Rightarrow> nat" where
  "request_of (ReadMetrics i) = i"
| "request_of (WriteMetrics i) = i"

fun run_step :: "env \<Rightarrow> step \<Rightarrow> (nat \<Rightarrow> row option) \<times> world \<Rightarrow> (nat \<Rightarrow> row option) \<times> world" where
  "run_step e (ReadMetrics i) (current, w) =
     (case select_single e w of
        (Inl x, w1) \<Rightarrow> (current, w1)
      | (Inr r, w1) \<Rightarrow> (current(i \<mapsto> r), w1))"
| "run_step e (WriteMetrics i) (current, w) =
     (case current i of
        None \<Rightarrow> (current, w)
      | Some r \<Rightarrow> (current(i := None), snd (write_metrics e r w)))"

definition run_schedule :: "env \<Rightarrow> step list \<Rightarrow> world \<Rightarrow> world" where
  "run_schedule e steps w = snd (fold (run_step e) steps (Map.empty, w))"

text \<open>
  A schedule of \<open>n\<close> requests: every request below \<open>n\<close> does its select and then its update,
  once, and no other step occurs.
\<close>

definition interleaving :: "nat \<Rightarrow> step list \<Rightarrow> bool" where
  "interleaving n steps =
     ((\<forall>i \<in> set [0..<n]. filter (\<lambda>s. request_of s = i) steps = [ReadMetrics i, WriteMetrics i])
      \<and> (\<forall>s \<in> set steps. request_of s < n))"

subsection \<open>A decoder for running the handler on given texts\<close>

text \<open>
  The theorems below hold for every decoder \<open>json_loads\<close>. To run the handler on a given
  text, \<open>json_loads_fragment\<close> decodes the JSON texts built from objects, arrays, strings
  without escape sequences, integers, \<open>true\<close>, \<open>false\<close> and \<open>null\<close>; on such a text it
  returns the value \<open>json.loads\<close> returns. Any other text is refused (the message of the
  error, which the handler never reads, is left empty).
\<close>

definition json_ws :: "char \<Rightarrow> bool" where
  "json_ws c = (of_char c \<in> {32, 9, 10, 13 :: nat})"

definition is_digit :: "char \<Rightarrow> bool" where
  "is_digit c = (48 \<le> (of_char c :: nat) \<and> (of_char c :: nat) \<le> 57)"

fun scan_string :: "string \<Rightarrow> string \<Rightarrow> (string \<times> string) option" where
  "scan_string acc [] = None"
| "scan_string acc (c # cs) =
     (if c = CHR 0x22 then Some (rev acc, cs)
      else if c = CHR 0x5C \<or> (of_char c :: nat) < 32 then None
      else scan_string (c # acc) cs)"

definition scan_int :: "string \<Rightarrow> (int \<times> string) option" where
  "scan_int s =
     (let neg = (s \<noteq> [] \<and> hd s = CHR ''-'');
          t = (if neg then tl s else s);
          ds = takeWhile is_digit t;
          r = dropWhile is_digit t
      in if ds = [] \<or> (hd ds = CHR ''0'' \<and> tl ds \<noteq> []) \<or> (r \<noteq> [] \<and> hd r \<in> set ''.eE'')
         then None
         else Some ((if neg then - 1 else 1) * foldl (\<lambda>a c. 10 * a + (int (of_char c) - 48)) 0 ds, r))"

fun decode_value :: "nat \<Rightarrow> string \<Rightarrow> (jval \<times> string) option"
  and decode_items :: "nat \<Rightarrow> jval list \<Rightarrow> string \<Rightarrow> (jval \<times> string) option"
  and decode_members :: "nat \<Rightarrow> row \<Rightarrow> string \<Rightarrow> (jval \<times> string) option" where
  "decode_value 0 s = None"
| "decode_value (Suc n) s =
     (case dropWhile json_ws s of
        [] \<Rightarrow> None
      | c # cs \<Rightarrow>
          if c = CHR 0x22 then
            (case scan_string [] cs of None \<Rightarrow> None | Some (t, r) \<Rightarrow> Some (JString t, r))
          else if c = CHR ''['' then
            (case dropWhile json_ws cs of
               [] \<Rightarrow> None
             | d # ds \<Rightarrow> if d = CHR '']'' then Some (JArray [], ds) else decode_items n [] cs)
          else if c = CHR ''{'' then
            (case dropWhile json_ws cs of
               [] \<Rightarrow> None
             | d # ds \<Rightarrow> if d = CHR ''}'' then Some (JObject [], ds) else decode_members n [] cs)
          else if startswith (c # cs) ''null'' then Some (JNull, drop 4 (c # cs))
          else if startswith (c # cs) ''true'' then Some (JBool True, drop 4 (c # cs))
          else if startswith (c # cs) ''false'' then Some (JBool False, drop 5 (c # cs))
          else (case scan_int (c # cs) of None \<Rightarrow> None | Some (i, r) \<Rightarrow> Some (JInt i, r)))"
| "decode_items 0 acc s = None"
| "decode_items (Suc n) acc s =
     (case decode_value n s of
        None \<Rightarrow> None
      | Some (v, r) \<Rightarrow>
          (case dropWhile json_ws r of
             [] \<Rightarrow> None
           | c # cs \<Rightarrow>
               if c = CHR '','' then decode_items n (acc @ [v]) cs
               else if c = CHR '']'' then Some (JArray (acc @ [v]), cs)
               else None))"
| "decode_members 0 acc s = None"
| "decode_members (Suc n) acc s =
     (case dropWhile json_ws s of
        [] \<Rightarrow> None
      | q # s1 \<Rightarrow>
          if q \<noteq> CHR 0x22 then None
          else
            (case scan_string [] s1 of
               None \<Rightarrow> None
             | Some (k, s2) \<Rightarrow>
                 (case dropWhile json_ws s2 of
                    [] \<Rightarrow> None
                  | c # s3 \<Rightarrow>
                      if c \<noteq> CHR '':'' then None
                      else
                        (case decode_value n s3 of
                           None \<Rightarrow> None
                         | Some (v, s4) \<Rightarrow>
                             (case dropWhile json_ws s4 of
                                [] \<Rightarrow> None
                              | d # s5 \<Rightarrow>
                                  if d = CHR '','' then decode_members n (AList.update k v acc) s5
                                  else if d = CHR ''}'' then Some (JObject (AList.update k v acc), s5)
                                  else None)))))"

definition json_loads_fragment :: "string \<Rightarrow> exn + jval" where
  "json_loads_fragment s =
     (case decode_value (Suc (length s)) s of
        None \<Rightarrow> Inl (Exn JSONDecodeError [])
      | Some (v, r) \<Rightarrow> if dropWhile json_ws r = [] then Inr v else Inl (Exn JSONDecodeError []))"

subsection \<open>Example data\<close>

text \<open>
  A store with one metrics row, collaborators that answer a given text and never fail, and
  the request of the example of the specification.
\<close>

definition demo_env :: "string \<Rightarrow> env" where
  "demo_env text =
     \<lparr>generate_content = (\<lambda>prompt. Inr text),
      json_loads = json_loads_fragment,
      insert_execute = None,
      select_execute = None,
      single_no_row = Exn OtherError ''no row'',
      update_execute = None,
      utcnow_isoformat = ''2026-01-01T00:00:00+00:00''\<rparr>"

definition demo_payload :: SummarizeRequest where
  "demo_payload = \<lparr>url = ''http://a'', title = ''A'', content = ''hello''\<rparr>"

definition demo_metrics :: row where
  "demo_metrics =
     [(''id'', JInt 1),
      (''total_tabs_closed'', JInt 0),
      (''total_ram_saved_mb'', JInt 0),
      (''total_power_saved_watts'', JFloat 0)]"

definition demo_world :: world where
  "demo_world = \<lparr>archived_tabs = [], system_metrics = [demo_metrics], calls = [], printed = []\<rparr>"

definition demo_text :: string where
  \<open>demo_text = ''```json'' @ [nl] @ ''{"summary":"s","tags":["x","y","z"]}'' @ [nl] @ ''```''\<close>

text \<open>
  Values of the power counter for the examples: the float \<open>0.835\<close>, an integer beyond the
  range of \<open>float\<close>, and an integer that \<open>float\<close> cannot hold exactly.
\<close>

definition demo_power :: rat where
  "demo_power = fl (835 / 1000)"

definition demo_huge :: int where
  "demo_huge = 10 ^ 400"

definition demo_odd :: int where
  "demo_odd = 2 ^ 53 + 1"

definition metrics_row :: "jval \<Rightarrow> row" where
  "metrics_row v =
     [(''id'', JInt 1),
      (''total_tabs_closed'', JInt 0),
      (''total_ram_saved_mb'', JInt 0),
      (''total_power_saved_watts'', v)]"

text \<open>The JSON body of the example answer, without its fences.\<close>

definition demo_body :: string where
  \<open>demo_body = ''{"summary":"s","tags":["x","y","z"]}''\<close>

section \<open>Properties\<close>

subsection \<open>Strings\<close>

lemma fence_not_space: "\<not> isspace (CHR ''`'')"
  by (simp add: isspace_def)

lemma nl_space: "isspace nl"
  by (simp add: isspace_def nl_def)

lemma dropWhile_prefix_all: "\<forall>x \<in> set xs. P x \<Longrightarrow> dropWhile P (xs @ ys) = dropWhile P ys"
  by (induction xs) auto

lemma takeWhile_prefix_all: "\<forall>x \<in> set xs. P x \<Longrightarrow> takeWhile P (xs @ ys) = xs @ takeWhile P ys"
  by (induction xs) auto

lemma rstrip_append_spaces: "\<forall>c \<in> set ws. isspace c \<Longrightarrow> rstrip (s @ ws) = rstrip s"
  by (simp add: rstrip_def dropWhile_prefix_all)

lemma rstrip_snoc_nonspace: "\<not> isspace c \<Longrightarrow> rstrip (s @ [c]) = s @ [c]"
  by (simp add: rstrip_def)

lemma lstrip_cons_nonspace: "\<not> isspace c \<Longrightarrow> lstrip (c # s) = c # s"
  by (simp add: lstrip_def)

lemma rfind_short: "length s < length sep \<Longrightarrow> rfind sep s = None"
  by (induction s) (auto simp: startswith_def)

lemma rfind_append_sep: "sep \<noteq> [] \<Longrightarrow> rfind sep (b @ sep) = Some (length b)"
proof (induction b)
  case Nil
  then obtain c cs where sep: "sep = c # cs" by (cases sep) auto
  have "rfind sep cs = None" by (rule rfind_short) (simp add: sep)
  then have "rfind sep (c # cs) = Some 0" by (simp add: startswith_def sep)
  then show ?case by (simp add: sep)
next
  case (Cons x b)
  then show ?case by simp
qed

lemma split1_first_line:
  assumes "c \<notin> set a"
  shows "split1 c (a @ c # b) = [a, b]"
proof -
  have all: "\<forall>x \<in> set a. x \<noteq> c"
    using assms by auto
  have t: "takeWhile (\<lambda>x. x \<noteq> c) (a @ c # b) = a"
    using takeWhile_prefix_all [of a "\<lambda>x. x \<noteq> c" "c # b", OF all] by simp
  have d: "dropWhile (\<lambda>x. x \<noteq> c) (a @ c # b) = c # b"
    using dropWhile_prefix_all [of a "\<lambda>x. x \<noteq> c" "c # b", OF all] by simp
  show ?thesis
    by (simp add: split1_def t d)
qed

lemma rsplit1_nonempty: "index (rsplit1 sep s) 0 = Inr (hd (rsplit1 sep s))"
  by (simp add: rsplit1_def index_def split: option.splits)


lemma strip_fenced:
  assumes "\<forall>c \<in> set ws. isspace c"
  shows "strip (fence @ tag @ nl # B @ nl # fence @ ws) = fence @ tag @ nl # B @ nl # fence"
proof -
  have "fence @ tag @ nl # B @ nl # fence @ ws = (fence @ tag @ nl # B @ nl # fence) @ ws"
    by simp
  then have "rstrip (fence @ tag @ nl # B @ nl # fence @ ws) = rstrip (fence @ tag @ nl # B @ nl # fence)"
    using assms rstrip_append_spaces by metis
  also have "\<dots> = rstrip ((fence @ tag @ nl # B @ nl # ''``'') @ [CHR ''`''])"
    by (simp add: fence_def)
  also have "\<dots> = (fence @ tag @ nl # B @ nl # ''``'') @ [CHR ''`'']"
    by (rule rstrip_snoc_nonspace) (rule fence_not_space)
  finally have r: "rstrip (fence @ tag @ nl # B @ nl # fence @ ws) = fence @ tag @ nl # B @ nl # fence"
    by (simp add: fence_def)
  show ?thesis
    unfolding strip_def r by (simp add: fence_def lstrip_cons_nonspace fence_not_space)
qed

lemma strip_snoc_nl: "strip (B @ [nl]) = strip B"
  using rstrip_append_spaces [of "[nl]" B] by (simp add: strip_def nl_space)

lemma strip_fences_fenced:
  assumes "nl \<notin> set tag"
  shows "strip_fences (fence @ tag @ nl # B @ nl # fence) = Inr (strip B)"
proof -
  have nf: "nl \<notin> set (fence @ tag)"
    using assms by (simp add: fence_def nl_def)
  have sp: "split1 nl (fence @ tag @ nl # B @ nl # fence) = [fence @ tag, B @ nl # fence]"
    using split1_first_line [OF nf, of "B @ nl # fence"] by simp
  have rf: "rfind fence (B @ nl # fence) = Some (length (B @ [nl]))"
    using rfind_append_sep [of fence "B @ [nl]"] by (simp add: fence_def)
  have rs: "rsplit1 fence (B @ nl # fence) = [B @ [nl], []]"
    by (simp add: rsplit1_def rf)
  have sw: "startswith (fence @ tag @ nl # B @ nl # fence) fence"
    by (simp add: startswith_def)
  show ?thesis
    by (simp add: strip_fences_def sw sp rs index_def strip_snoc_nl)
qed

lemma strip_fences_plain: "\<not> startswith s fence \<Longrightarrow> strip_fences s = Inr s"
  by (simp add: strip_fences_def)

lemma parse_fenced_eq:
  assumes "nl \<notin> set tag" and "\<not> startswith (strip B) fence" and "\<forall>c \<in> set ws. isspace c"
  shows "parse_model_text loads (fence @ tag @ nl # B @ nl # fence @ ws) = parse_model_text loads B"
  by (simp add: parse_model_text_def strip_fenced [OF assms(3)] strip_fences_fenced [OF assms(1)]
      strip_fences_plain [OF assms(2)])

lemma startswith_iff: "startswith s p \<longleftrightarrow> (\<exists>b. s = p @ b)"
proof
  assume "startswith s p"
  then have "s = p @ drop (length p) s"
    by (metis append_take_drop_id startswith_def)
  then show "\<exists>b. s = p @ b" ..
next
  assume "\<exists>b. s = p @ b"
  then show "startswith s p" by (auto simp: startswith_def)
qed

lemma occurs_Cons:
  "(\<exists>a b. c # cs = a @ sep @ b) \<longleftrightarrow> (\<exists>b. c # cs = sep @ b) \<or> (\<exists>a b. cs = a @ sep @ b)"
proof
  assume "\<exists>a b. c # cs = a @ sep @ b"
  then obtain a b where ab: "c # cs = a @ sep @ b" by blast
  show "(\<exists>b. c # cs = sep @ b) \<or> (\<exists>a b. cs = a @ sep @ b)"
  proof (cases a)
    case Nil
    with ab show ?thesis by auto
  next
    case (Cons x a')
    with ab have "cs = a' @ sep @ b" by simp
    then show ?thesis by blast
  qed
next
  assume "(\<exists>b. c # cs = sep @ b) \<or> (\<exists>a b. cs = a @ sep @ b)"
  then show "\<exists>a b. c # cs = a @ sep @ b"
  proof
    assume "\<exists>b. c # cs = sep @ b"
    then obtain b where "c # cs = [] @ sep @ b" by auto
    then show ?thesis by blast
  next
    assume "\<exists>a b. cs = a @ sep @ b"
    then obtain a b where "cs = a @ sep @ b" by blast
    then have "c # cs = (c # a) @ sep @ b" by simp
    then show ?thesis by blast
  qed
qed

lemma rfind_None_iff: "sep \<noteq> [] \<Longrightarrow> rfind sep s = None \<longleftrightarrow> (\<forall>a b. s \<noteq> a @ sep @ b)"
proof (induction s)
  case Nil
  then show ?case by simp
next
  case (Cons c cs)
  have "rfind sep (c # cs) = None \<longleftrightarrow> rfind sep cs = None \<and> \<not> startswith (c # cs) sep"
    by (simp split: option.splits)
  also have "\<dots> \<longleftrightarrow> \<not> (\<exists>a b. cs = a @ sep @ b) \<and> \<not> (\<exists>b. c # cs = sep @ b)"
    using Cons by (simp add: startswith_iff)
  also have "\<dots> \<longleftrightarrow> \<not> (\<exists>a b. c # cs = a @ sep @ b)"
    using occurs_Cons [of c cs sep] by blast
  finally show ?case by blast
qed

lemma rfind_Some:
  "sep \<noteq> [] \<Longrightarrow> rfind sep s = Some i \<Longrightarrow>
     (\<exists>b. s = take i s @ sep @ b) \<and> i \<le> length s \<and> (\<forall>a' b'. s = a' @ sep @ b' \<longrightarrow> length a' \<le> i)"
proof (induction s arbitrary: i)
  case Nil
  then show ?case by simp
next
  case (Cons c cs)
  show ?case
  proof (cases "rfind sep cs")
    case None
    with Cons.prems have sw: "startswith (c # cs) sep" and i: "i = 0"
      by (auto split: if_splits)
    from sw obtain b where b: "c # cs = sep @ b"
      by (auto simp: startswith_iff)
    have "length a' \<le> 0" if "c # cs = a' @ sep @ b'" for a' b'
    proof (cases a')
      case Nil
      then show ?thesis by simp
    next
      case (Cons x a'')
      with that have "cs = a'' @ sep @ b'" by simp
      moreover have "\<forall>a b. cs \<noteq> a @ sep @ b"
        using None Cons.prems(1) rfind_None_iff by blast
      ultimately show ?thesis by blast
    qed
    with b i show ?thesis by auto
  next
    case (Some j)
    with Cons.prems have i: "i = Suc j" by simp
    from Cons.IH [OF Cons.prems(1) Some]
    obtain b where b: "cs = take j cs @ sep @ b" and j: "j \<le> length cs"
      and mx: "\<forall>a' b'. cs = a' @ sep @ b' \<longrightarrow> length a' \<le> j"
      by blast
    have "length a' \<le> Suc j" if "c # cs = a' @ sep @ b'" for a' b'
    proof (cases a')
      case Nil
      then show ?thesis by simp
    next
      case (Cons x a'')
      with that have "cs = a'' @ sep @ b'" by simp
      with mx have "length a'' \<le> j" by blast
      with Cons show ?thesis by simp
    qed
    moreover have "c # cs = take (Suc j) (c # cs) @ sep @ b"
      using b by simp
    ultimately show ?thesis
      using i j by auto
  qed
qed

lemma rfind_last:
  assumes "sep \<noteq> []" and "s = a @ sep @ b"
    and "\<forall>a' b'. s = a' @ sep @ b' \<longrightarrow> length a' \<le> length a"
  shows "rfind sep s = Some (length a)"
proof -
  have "rfind sep s \<noteq> None"
    using assms(1,2) by (simp add: rfind_None_iff) blast
  then obtain i where i: "rfind sep s = Some i" by blast
  from rfind_Some [OF assms(1) i]
  obtain b0 where b0: "s = take i s @ sep @ b0" and le: "i \<le> length s"
    and mx: "\<forall>a' b'. s = a' @ sep @ b' \<longrightarrow> length a' \<le> i"
    by blast
  from mx assms(2) have "length a \<le> i" by blast
  moreover from assms(3) b0 have "length (take i s) \<le> length a" by blast
  with le have "i \<le> length a" by simp
  ultimately show ?thesis using i by simp
qed

lemma rsplit1_last:
  assumes "sep \<noteq> []" and "s = a @ sep @ b"
    and "\<forall>a' b'. s = a' @ sep @ b' \<longrightarrow> length a' \<le> length a"
  shows "rsplit1 sep s = [a, b]"
  using rfind_last [OF assms] assms(2) by (simp add: rsplit1_def)

lemma rsplit1_absent:
  assumes "sep \<noteq> []" and "\<forall>a b. s \<noteq> a @ sep @ b"
  shows "rsplit1 sep s = [s]"
proof -
  have "rfind sep s = None"
    using assms rfind_None_iff by blast
  then show ?thesis by (simp add: rsplit1_def)
qed

lemma split1_present: "c \<in> set s \<Longrightarrow> split1 c s = [takeWhile (\<lambda>x. x \<noteq> c) s, tl (dropWhile (\<lambda>x. x \<noteq> c) s)]"
  by (simp add: split1_def)

lemma strip_fences_lines:
  assumes "startswith t fence" and "nl \<in> set t"
  shows "strip_fences t = Inr (strip (hd (rsplit1 fence (tl (dropWhile (\<lambda>x. x \<noteq> nl) t)))))"
proof -
  have "index (split1 nl t) 1 = Inr (tl (dropWhile (\<lambda>x. x \<noteq> nl) t))"
    using assms(2) by (simp add: split1_present index_def)
  then show ?thesis
    using assms(1) by (simp add: strip_fences_def rsplit1_nonempty)
qed

lemma strip_fences_one_line:
  assumes "startswith t fence" and "nl \<notin> set t"
  shows "strip_fences t = Inl (Exn IndexError ''list index out of range'', Some t)"
  using assms by (simp add: strip_fences_def split1_def index_def)

subsection \<open>The steps of the handler\<close>

lemma summarize_tab_step1_fails:
  "generate_summary e p = Inl out \<Longrightarrow>
   summarize_tab e p w = (out, w\<lparr>calls := calls w @ [Generate (user_prompt p)]\<rparr>)"
  by (simp add: summarize_tab_def)

lemma summarize_tab_insert_fails:
  "generate_summary e p = Inr (sm, tg) \<Longrightarrow> insert_execute e = Some x \<Longrightarrow>
   summarize_tab e p w =
     (HTTPException 500 (''Supabase insert error: '' @ str_exn x),
      w\<lparr>calls := calls w @ [Generate (user_prompt p), Insert (archived_tab e p sm tg)]\<rparr>)"
  by (simp add: summarize_tab_def insert_archived_tab_def Let_def)

lemma select_single_fst: "system_metrics w' = system_metrics w \<Longrightarrow> fst (select_single e w') = fst (select_single e w)"
  by (simp add: select_single_def Let_def split: option.splits list.splits)

lemma select_single_snd: "snd (select_single e w) = w\<lparr>calls := calls w @ [Select]\<rparr>"
  by (simp add: select_single_def Let_def split: option.splits list.splits)

lemma write_metrics_fst: "fst (write_metrics e r w') = fst (write_metrics e r w)"
  by (simp add: write_metrics_def update_eq_id_def Let_def split: sum.splits option.splits prod.splits)

lemma increment_eq:
  "increment_system_metrics e w =
     (case fst (select_single e w) of
        Inl x \<Rightarrow> (Some x, w\<lparr>calls := calls w @ [Select]\<rparr>)
      | Inr current \<Rightarrow> write_metrics e current (w\<lparr>calls := calls w @ [Select]\<rparr>))"
  using select_single_snd [of e w]
  by (cases "select_single e w") (simp add: increment_system_metrics_def split: sum.splits)

lemma increment_fst:
  "system_metrics w' = system_metrics w \<Longrightarrow>
   fst (increment_system_metrics e w') = fst (increment_system_metrics e w)"
  using write_metrics_fst [of e _ "w'\<lparr>calls := calls w' @ [Select]\<rparr>" "w\<lparr>calls := calls w @ [Select]\<rparr>"]
  by (simp add: increment_eq select_single_fst [of w' w e] split: sum.splits)

lemma write_metrics_other:
  "archived_tabs (snd (write_metrics e r w)) = archived_tabs w \<and>
   printed (snd (write_metrics e r w)) = printed w"
  by (simp add: write_metrics_def update_eq_id_def Let_def split: sum.splits option.splits prod.splits)

lemma increment_other:
  "archived_tabs (snd (increment_system_metrics e w)) = archived_tabs w \<and>
   printed (snd (increment_system_metrics e w)) = printed w"
  by (simp add: increment_eq write_metrics_other split: sum.splits)

lemma summarize_tab_archived:
  assumes "generate_summary e p = Inr (sm, tg)" and "insert_execute e = None"
  shows "fst (summarize_tab e p w) =
           (case new_SummarizeResponse ''ok'' sm tg of
              None \<Rightarrow> Uncaught ValidationError
            | Some response \<Rightarrow> Returned response)"
    and "archived_tabs (snd (summarize_tab e p w)) = archived_tabs w @ [archived_tab e p sm tg]"
    and "printed (snd (summarize_tab e p w)) =
          printed w @ (case fst (increment_system_metrics e w) of
                         Some x \<Rightarrow> [MetricsUpdateFailed x] | None \<Rightarrow> [])
          @ [Archived (title p) (url p)]"
proof -
  let ?w2 = "w\<lparr>calls := calls w @ [Generate (user_prompt p), Insert (archived_tab e p sm tg)],
               archived_tabs := archived_tabs w @ [archived_tab e p sm tg]\<rparr>"
  have ins: "insert_archived_tab e p sm tg (w\<lparr>calls := calls w @ [Generate (user_prompt p)]\<rparr>) = (None, ?w2)"
    using assms(2) by (simp add: insert_archived_tab_def Let_def)
  obtain r w3 where inc: "increment_system_metrics e ?w2 = (r, w3)"
    by (cases "increment_system_metrics e ?w2")
  have r: "r = fst (increment_system_metrics e w)"
    using increment_fst [of ?w2 w e] inc by simp
  have o: "archived_tabs w3 = archived_tabs ?w2" "printed w3 = printed ?w2"
    using increment_other [of e ?w2] inc by simp_all
  show "fst (summarize_tab e p w) =
           (case new_SummarizeResponse ''ok'' sm tg of
              None \<Rightarrow> Uncaught ValidationError
            | Some response \<Rightarrow> Returned response)"
    by (simp add: summarize_tab_def assms(1) ins inc Let_def split: option.splits)
  show "archived_tabs (snd (summarize_tab e p w)) = archived_tabs w @ [archived_tab e p sm tg]"
    using o by (simp add: summarize_tab_def assms(1) ins inc Let_def split: option.splits)
  show "printed (snd (summarize_tab e p w)) =
          printed w @ (case fst (increment_system_metrics e w) of
                         Some x \<Rightarrow> [MetricsUpdateFailed x] | None \<Rightarrow> [])
          @ [Archived (title p) (url p)]"
    using o r by (simp add: summarize_tab_def assms(1) ins inc Let_def split: option.splits)
qed

lemma str_items_map: "str_items (map JString ts) = Some ts"
  by (induction ts) simp_all

lemma new_SummarizeResponse_strings:
  "new_SummarizeResponse st (JString s) (JArray (map JString ts)) =
     Some \<lparr>status = st, summary = s, tags = ts\<rparr>"
  by (simp add: str_items_map)

lemma generate_summary_cong:
  "generate_content e' = generate_content e \<Longrightarrow> json_loads e' = json_loads e \<Longrightarrow>
   generate_summary e' p = generate_summary e p"
  by (simp add: generate_summary_def try_block_def split: sum.splits)

lemma demo_generate_summary:
  "generate_summary (demo_env demo_text) p =
     Inr (JString ''s'', JArray [JString ''x'', JString ''y'', JString ''z''])"
  by (simp add: generate_summary_def try_block_def demo_env_def demo_text_def parse_model_text_def
      strip_def rstrip_def lstrip_def isspace_def nl_def strip_fences_def startswith_def fence_def
      split1_def index_def rsplit1_def json_loads_fragment_def json_ws_def dict_get_def)



lemma calls_prefix_write: "\<exists>rest. calls (snd (write_metrics e r w)) = calls w @ rest"
  by (simp add: write_metrics_def update_eq_id_def Let_def split: sum.splits option.splits prod.splits)

lemma calls_prefix_increment: "\<exists>rest. calls (snd (increment_system_metrics e w)) = calls w @ rest"
proof (cases "fst (select_single e w)")
  case (Inl x)
  then show ?thesis by (simp add: increment_eq)
next
  case (Inr r)
  obtain rest where "calls (snd (write_metrics e r (w\<lparr>calls := calls w @ [Select]\<rparr>))) = (calls w @ [Select]) @ rest"
    using calls_prefix_write [of e r "w\<lparr>calls := calls w @ [Select]\<rparr>"] by auto
  with Inr show ?thesis by (simp add: increment_eq)
qed

lemma summarize_tab_first_call:
  "\<exists>rest. calls (snd (summarize_tab e p w)) = calls w @ Generate (user_prompt p) # rest"
proof (cases "generate_summary e p")
  case (Inl out)
  then show ?thesis by (simp add: summarize_tab_step1_fails)
next
  case (Inr st)
  obtain sm tg where st: "st = (sm, tg)" by (cases st)
  show ?thesis
  proof (cases "insert_execute e")
    case (Some x)
    with Inr st show ?thesis by (simp add: summarize_tab_insert_fails)
  next
    case None
    let ?w2 = "w\<lparr>calls := calls w @ [Generate (user_prompt p), Insert (archived_tab e p sm tg)],
                 archived_tabs := archived_tabs w @ [archived_tab e p sm tg]\<rparr>"
    have ins: "insert_archived_tab e p sm tg (w\<lparr>calls := calls w @ [Generate (user_prompt p)]\<rparr>) = (None, ?w2)"
      using None by (simp add: insert_archived_tab_def Let_def)
    obtain r w3 where inc: "increment_system_metrics e ?w2 = (r, w3)"
      by (cases "increment_system_metrics e ?w2")
    obtain rest where "calls w3 = calls ?w2 @ rest"
      using calls_prefix_increment [of e ?w2] inc by auto
    then show ?thesis
      using Inr st by (simp add: summarize_tab_def ins inc Let_def split: option.splits)
  qed
qed


lemma model_step_failure_502:
  assumes "try_block e p = Inl (x, rt)"
    and "exn_cls x = JSONDecodeError \<longrightarrow> rt \<noteq> None"
  shows "\<exists>d. summarize_tab e p w =
           (HTTPException 502 d, w\<lparr>calls := calls w @ [Generate (user_prompt p)]\<rparr>)"
proof -
  have "\<exists>d. except_clauses (x, rt) = HTTPException 502 d"
    using assms(2) by (cases rt) (auto simp: except_clauses_def)
  then obtain d where "generate_summary e p = Inl (HTTPException 502 d)"
    using assms(1) by (auto simp: generate_summary_def)
  then show ?thesis
    by (auto simp: summarize_tab_step1_fails)
qed

lemma generate_failure_502:
  assumes "generate_content e (user_prompt p) = Inl x" and "exn_cls x \<noteq> JSONDecodeError"
  shows "summarize_tab e p w =
           (HTTPException 502 (''Vertex AI error: '' @ str_exn x),
            w\<lparr>calls := calls w @ [Generate (user_prompt p)]\<rparr>)"
  using assms
  by (simp add: summarize_tab_def generate_summary_def try_block_def except_clauses_def)

lemma parse_failure_bound:
  "parse_model_text loads text = Inl (x, rt) \<Longrightarrow> rt \<noteq> None"
  by (auto simp: parse_model_text_def strip_fences_def split: sum.splits if_splits)

lemma parse_failure_502:
  assumes "generate_content e (user_prompt p) = Inr text"
    and "parse_model_text (json_loads e) text = Inl (x, rt)"
  shows "\<exists>d. summarize_tab e p w =
           (HTTPException 502 d, w\<lparr>calls := calls w @ [Generate (user_prompt p)]\<rparr>)"
proof -
  have "try_block e p = Inl (x, rt)"
    using assms by (simp add: try_block_def)
  moreover have "rt \<noteq> None"
    using assms(2) by (rule parse_failure_bound)
  ultimately show ?thesis
    using model_step_failure_502 [of e p x rt w] by simp
qed

subsection \<open>Floats\<close>

lemma rhe_cases:
  "(round_half_even y = \<lfloor>y\<rfloor> \<and> y - of_int \<lfloor>y\<rfloor> \<le> 1 / 2)
   \<or> (round_half_even y = \<lfloor>y\<rfloor> + 1 \<and> 1 / 2 \<le> y - of_int \<lfloor>y\<rfloor>)"
  by (auto simp: round_half_even_def Let_def)

lemma rhe_bounds: "y - 1 / 2 \<le> of_int (round_half_even y)" "of_int (round_half_even y) \<le> y + 1 / 2"
proof -
  have f: "of_int \<lfloor>y\<rfloor> \<le> y" "y < of_int \<lfloor>y\<rfloor> + 1"
    by linarith+
  consider (lo) "round_half_even y = \<lfloor>y\<rfloor>" "y - of_int \<lfloor>y\<rfloor> \<le> 1 / 2"
    | (hi) "round_half_even y = \<lfloor>y\<rfloor> + 1" "1 / 2 \<le> y - of_int \<lfloor>y\<rfloor>"
    using rhe_cases [of y] by blast
  then have "y - 1 / 2 \<le> of_int (round_half_even y) \<and> of_int (round_half_even y) \<le> y + 1 / 2"
  proof cases
    case lo
    show ?thesis
      unfolding lo(1) using lo(2) f by linarith
  next
    case hi
    have "(of_int (\<lfloor>y\<rfloor> + 1) :: rat) = of_int \<lfloor>y\<rfloor> + 1"
      by simp
    then show ?thesis
      unfolding hi(1) using hi(2) f by linarith
  qed
  then show "y - 1 / 2 \<le> of_int (round_half_even y)" "of_int (round_half_even y) \<le> y + 1 / 2"
    by simp_all
qed

lemma rhe_of_int: "round_half_even (of_int n) = n"
  by (simp add: round_half_even_def)

lemma rhe_mono:
  assumes "a \<le> b"
  shows "round_half_even a \<le> round_half_even b"
proof (cases "\<lfloor>a\<rfloor> = \<lfloor>b\<rfloor>")
  case True
  have "a - of_int \<lfloor>b\<rfloor> \<le> b - of_int \<lfloor>b\<rfloor>"
    using assms by simp
  then show ?thesis
    unfolding round_half_even_def Let_def True by auto
next
  case False
  have "\<lfloor>a\<rfloor> \<le> \<lfloor>b\<rfloor>"
    using assms by (rule floor_mono)
  with False have lt: "\<lfloor>a\<rfloor> + 1 \<le> \<lfloor>b\<rfloor>"
    by simp
  have "round_half_even a \<le> \<lfloor>a\<rfloor> + 1"
    by (simp add: round_half_even_def Let_def)
  moreover have "\<lfloor>b\<rfloor> \<le> round_half_even b"
    by (simp add: round_half_even_def Let_def)
  ultimately show ?thesis
    using lt by linarith
qed

lemma expo_bounds:
  assumes "z \<noteq> 0"
  shows "2 powi expo z \<le> \<bar>z\<bar>" and "\<bar>z\<bar> < 2 powi (expo z + 1)"
proof -
  have "2 powi expo z \<le> \<bar>z\<bar> \<and> \<bar>z\<bar> < 2 powi (expo z + 1)"
  proof (cases "1 \<le> \<bar>z\<bar>")
    case True
    define n where "n = \<lfloor>\<bar>z\<bar>\<rfloor>"
    have n1: "1 \<le> n"
      using True by (simp add: n_def le_floor_iff)
    then have n0: "0 < n" by simp
    have b: "2 ^ nat (bitlen n - 1) \<le> n" "n < 2 ^ nat (bitlen n)"
      using bitlen_bounds [OF n0] by simp_all
    have b1: "1 \<le> bitlen n"
      using n0 by (simp add: bitlen_alt_def)
    have e: "expo z = bitlen n - 1"
      using True by (simp add: expo_def n_def)
    have lo: "(2::rat) powi (bitlen n - 1) = of_int (2 ^ nat (bitlen n - 1))"
      using b1 by (simp add: power_int_def)
    have hi: "(2::rat) powi (bitlen n - 1 + 1) = of_int (2 ^ nat (bitlen n))"
      using b1 by (simp add: power_int_def)
    have "of_int n \<le> \<bar>z\<bar>" "\<bar>z\<bar> < of_int n + 1"
      unfolding n_def by linarith+
    moreover have "(of_int (2 ^ nat (bitlen n - 1)) :: rat) \<le> of_int n"
      using b(1) by (simp only: of_int_le_iff)
    moreover have "(of_int n + 1 :: rat) \<le> of_int (2 ^ nat (bitlen n))"
    proof -
      have "n + 1 \<le> 2 ^ nat (bitlen n)" using b(2) by simp
      then have "(of_int (n + 1) :: rat) \<le> of_int (2 ^ nat (bitlen n))"
        by (simp only: of_int_le_iff)
      then show ?thesis by simp
    qed
    ultimately show ?thesis
      unfolding e lo hi by linarith
  next
    case False
    define w where "w = 1 / \<bar>z\<bar>"
    have z0: "0 < \<bar>z\<bar>" using assms by simp
    have w1: "1 < w"
      using False z0 by (simp add: w_def)
    define m where "m = \<lceil>w\<rceil>"
    have m2: "2 \<le> m"
      using w1 by (simp add: m_def)
    then have m0: "0 < m - 1" by simp
    define b where "b = bitlen (m - 1)"
    have bb: "2 ^ nat (b - 1) \<le> m - 1" "m - 1 < 2 ^ nat b"
      using bitlen_bounds [OF m0] by (simp_all add: b_def)
    have b1: "1 \<le> b"
      using m0 by (simp add: b_def bitlen_alt_def)
    have e: "expo z = - b"
      using False by (simp add: expo_def b_def m_def w_def)
    have cw: "w \<le> of_int m" "of_int m - 1 < w"
      unfolding m_def by linarith+
    have "(of_int m :: rat) \<le> of_int (2 ^ nat b)"
    proof -
      have "m \<le> 2 ^ nat b" using bb(2) by simp
      then show ?thesis by (simp only: of_int_le_iff)
    qed
    moreover have "(of_int (2 ^ nat b) :: rat) = 2 ^ nat b"
      by simp
    ultimately have up: "w \<le> 2 ^ nat b"
      using cw(1) by linarith
    have "(of_int (2 ^ nat (b - 1)) :: rat) \<le> of_int (m - 1)"
      using bb(1) by (simp only: of_int_le_iff)
    moreover have "(of_int (2 ^ nat (b - 1)) :: rat) = 2 ^ nat (b - 1)"
      by simp
    moreover have "(of_int (m - 1) :: rat) = of_int m - 1"
      by simp
    ultimately have lo: "2 ^ nat (b - 1) < w"
      using cw(2) by linarith
    have p1: "(2::rat) powi (- b) = 1 / 2 ^ nat b"
      using b1 by (simp add: power_int_def field_simps)
    have p2: "(2::rat) powi (- b + 1) = 1 / 2 ^ nat (b - 1)"
    proof -
      have "- b + 1 = - (b - 1)" by simp
      moreover have "(2::rat) powi (- (b - 1)) = 1 / 2 ^ nat (b - 1)"
        using b1 by (simp add: power_int_minus field_simps power_int_def)
      ultimately show ?thesis by simp
    qed
    have zw: "\<bar>z\<bar> = 1 / w"
      by (simp add: w_def)
    have w0: "0 < w" using w1 by simp
    have "1 / 2 ^ nat b \<le> 1 / w"
      using up w0 by (simp add: frac_le)
    moreover have "1 / w < 1 / 2 ^ nat (b - 1)"
      using lo by (simp add: frac_less2)
    ultimately show ?thesis
      unfolding e p1 p2 zw by simp
  qed
  then show "2 powi expo z \<le> \<bar>z\<bar>" and "\<bar>z\<bar> < 2 powi (expo z + 1)"
    by simp_all
qed


lemma two_powi_pos: "0 < (2::rat) powi k"
  by simp

lemma two_powi_mono: "j \<le> k \<Longrightarrow> (2::rat) powi j \<le> 2 powi k"
  by (rule power_int_increasing) simp_all

lemma two_powi_add: "(2::rat) powi (j + k) = 2 powi j * 2 powi k"
  by (rule power_int_add) simp

lemma two_powi_nat: "0 \<le> k \<Longrightarrow> (2::rat) powi k = of_int (2 ^ nat k)"
  by (simp add: power_int_def)

lemma fl_multiple: "fl z = of_int (round_half_even (z / 2 powi ulp_exp z)) * 2 powi ulp_exp z"
  by (simp add: fl_def rhe_of_int [of 0, simplified])

lemma fl_nonneg:
  assumes "0 \<le> z"
  shows "0 \<le> fl z"
proof -
  have "0 \<le> z / 2 powi ulp_exp z"
    using assms by simp
  then have "round_half_even 0 \<le> round_half_even (z / 2 powi ulp_exp z)"
    by (rule rhe_mono)
  then have "0 \<le> round_half_even (z / 2 powi ulp_exp z)"
    using rhe_of_int [of 0] by simp
  then show ?thesis
    unfolding fl_multiple by simp
qed

lemma fl_ge_multiple:
  assumes "of_int n * 2 powi ulp_exp z \<le> z"
  shows "of_int n * 2 powi ulp_exp z \<le> fl z"
proof -
  have "of_int n \<le> z / 2 powi ulp_exp z"
    using assms by (simp add: pos_le_divide_eq)
  then have "round_half_even (of_int n) \<le> round_half_even (z / 2 powi ulp_exp z)"
    by (rule rhe_mono)
  then have "n \<le> round_half_even (z / 2 powi ulp_exp z)"
    by (simp add: rhe_of_int)
  then have "(of_int n :: rat) \<le> of_int (round_half_even (z / 2 powi ulp_exp z))"
    by (simp only: of_int_le_iff)
  then show ?thesis
    unfolding fl_multiple by (simp add: mult_right_mono)
qed

lemma fl_ge:
  assumes p: "fl p = p" and le: "p \<le> z"
  shows "p \<le> fl z"
proof (cases "ulp_exp z \<le> ulp_exp p")
  case True
  define m where "m = round_half_even (p / 2 powi ulp_exp p)"
  define d where "d = ulp_exp p - ulp_exp z"
  have d0: "0 \<le> d" using True by (simp add: d_def)
  have "p = of_int m * 2 powi ulp_exp p"
    using p fl_multiple [of p] by (simp add: m_def)
  also have "ulp_exp p = d + ulp_exp z"
    by (simp add: d_def)
  also have "(2::rat) powi (d + ulp_exp z) = of_int (2 ^ nat d) * 2 powi ulp_exp z"
    by (simp only: two_powi_add two_powi_nat [OF d0])
  finally have pm: "p = of_int (m * 2 ^ nat d) * 2 powi ulp_exp z"
    by simp
  then have "of_int (m * 2 ^ nat d) * 2 powi ulp_exp z \<le> z"
    using le by simp
  then have "of_int (m * 2 ^ nat d) * 2 powi ulp_exp z \<le> fl z"
    by (rule fl_ge_multiple)
  then show ?thesis
    using pm by simp
next
  case False
  then have lt: "ulp_exp p < ulp_exp z" by simp
  show ?thesis
  proof (cases "p \<le> 0")
    case True
    show ?thesis
    proof (cases "0 \<le> z")
      case True
      then have "0 \<le> fl z" by (rule fl_nonneg)
      with \<open>p \<le> 0\<close> show ?thesis by simp
    next
      case False
      then have z0: "z < 0" by simp
      then have zn: "z \<noteq> 0" by simp
      have pn: "p \<noteq> 0" using le z0 by auto
      have kz: "ulp_exp z = expo z - 52"
        using lt by (simp add: ulp_exp_def max_def split: if_splits)
      have "expo p - 52 \<le> ulp_exp p"
        by (simp add: ulp_exp_def)
      with lt kz have "expo p + 1 \<le> expo z" by simp
      then have "(2::rat) powi (expo p + 1) \<le> 2 powi expo z"
        by (rule two_powi_mono)
      with expo_bounds(2) [OF pn] expo_bounds(1) [OF zn] have "\<bar>p\<bar> < \<bar>z\<bar>"
        by linarith
      with le z0 show ?thesis by simp
    qed
  next
    case False
    then have p0: "0 < p" by simp
    then have pn: "p \<noteq> 0" by simp
    have z0: "0 < z" using p0 le by simp
    then have zn: "z \<noteq> 0" by simp
    have kz: "ulp_exp z = expo z - 52"
      using lt by (simp add: ulp_exp_def max_def split: if_splits)
    have "expo p - 52 \<le> ulp_exp p"
      by (simp add: ulp_exp_def)
    with lt kz have "expo p + 1 \<le> expo z" by simp
    then have "(2::rat) powi (expo p + 1) \<le> 2 powi expo z"
      by (rule two_powi_mono)
    with expo_bounds(2) [OF pn] have pz: "\<bar>p\<bar> < 2 powi expo z"
      by linarith
    have "expo z = 52 + ulp_exp z"
      using kz by simp
    then have "(2::rat) powi expo z = of_int (2 ^ 52) * 2 powi ulp_exp z"
      by (simp add: two_powi_add)
    moreover have "2 powi expo z \<le> z"
      using expo_bounds(1) [OF zn] z0 by simp
    ultimately have "of_int (2 ^ 52) * 2 powi ulp_exp z \<le> z"
      by simp
    then have "of_int (2 ^ 52) * 2 powi ulp_exp z \<le> fl z"
      by (rule fl_ge_multiple)
    with \<open>2 powi expo z = of_int (2 ^ 52) * 2 powi ulp_exp z\<close> have "2 powi expo z \<le> fl z"
      by simp
    with pz show ?thesis by linarith
  qed
qed

lemma fl_error:
  "\<bar>fl z - z\<bar> \<le> 2 powi ulp_exp z / 2"
proof -
  define t where "t = z / 2 powi ulp_exp z"
  have z: "z = t * 2 powi ulp_exp z"
    by (simp add: t_def)
  have "\<bar>of_int (round_half_even t) - t\<bar> \<le> 1 / 2"
    using rhe_bounds [of t] by linarith
  then have "\<bar>of_int (round_half_even t) - t\<bar> * 2 powi ulp_exp z \<le> 1 / 2 * 2 powi ulp_exp z"
    by (rule mult_right_mono) simp
  moreover have "fl z - z = (of_int (round_half_even t) - t) * 2 powi ulp_exp z"
    unfolding fl_multiple t_def [symmetric] using z by (simp add: algebra_simps)
  ultimately show ?thesis
    by (simp add: abs_mult)
qed


lemma round2_ge:
  assumes "p \<le> x" and "p + 1 / 10 \<le> x \<or> (\<exists>n. x * 100 = of_int n)" and "fl p = p"
  shows "p \<le> round2 x"
proof -
  have "p \<le> of_int (round_half_even (x * 100)) / 100"
    using assms(2)
  proof
    assume "p + 1 / 10 \<le> x"
    moreover have "x * 100 - 1 / 2 \<le> of_int (round_half_even (x * 100))"
      by (rule rhe_bounds)
    ultimately show ?thesis
      by (simp add: pos_le_divide_eq)
  next
    assume "\<exists>n. x * 100 = of_int n"
    then obtain n where n: "x * 100 = of_int n" ..
    have "of_int (round_half_even (x * 100)) / 100 = x"
      unfolding n rhe_of_int using n by simp
    then show ?thesis
      using assms(1) by simp
  qed
  then show ?thesis
    unfolding round2_def by (rule fl_ge [OF assms(3)])
qed

lemma fl_add_ge:
  assumes "fl p = p" and "17 / 100 \<le> c"
  shows "p \<le> fl (p + c)"
    and "p + 1 / 10 \<le> fl (p + c) \<or> (\<exists>n. fl (p + c) * 100 = of_int n)"
proof -
  show "p \<le> fl (p + c)"
    using assms by (intro fl_ge) simp_all
  define k where "k = ulp_exp (p + c)"
  define m where "m = round_half_even ((p + c) / 2 powi k)"
  have x: "fl (p + c) = of_int m * 2 powi k"
    unfolding m_def k_def by (rule fl_multiple)
  show "p + 1 / 10 \<le> fl (p + c) \<or> (\<exists>n. fl (p + c) * 100 = of_int n)"
  proof (cases "- 2 \<le> k")
    case True
    then have k2: "0 \<le> k + 2" by simp
    have "k = (k + 2) + (- 2)" by simp
    then have "(2::rat) powi k = 2 powi (k + 2) * 2 powi (- 2)"
      by (metis two_powi_add)
    also have "\<dots> = of_int (2 ^ nat (k + 2)) / 4"
      by (simp add: two_powi_nat [OF k2] power_int_minus)
    finally have "fl (p + c) * 100 = of_int (m * 2 ^ nat (k + 2) * 25)"
      unfolding x by simp
    then show ?thesis by blast
  next
    case False
    then have "k \<le> - 3" by simp
    then have "(2::rat) powi k \<le> 2 powi (- 3)"
      by (rule two_powi_mono)
    then have "(2::rat) powi k \<le> 1 / 8"
      by (simp add: power_int_minus)
    moreover have "\<bar>fl (p + c) - (p + c)\<bar> \<le> 2 powi k / 2"
      unfolding k_def by (rule fl_error)
    ultimately have "p + 1 / 10 \<le> fl (p + c)"
      using assms(2) by linarith
    then show ?thesis ..
  qed
qed

lemma round2_after_add:
  assumes "fl p = p" and "17 / 100 \<le> c"
  shows "p \<le> round2 (fl (p + c))"
  using fl_add_ge [OF assms] assms(1) by (intro round2_ge) simp_all


lemma expo_unique:
  assumes "2 powi e \<le> \<bar>z\<bar>" and "\<bar>z\<bar> < 2 powi (e + 1)"
  shows "expo z = e"
proof -
  have "0 < \<bar>z\<bar>"
    using assms(1) two_powi_pos [of e] by linarith
  then have zn: "z \<noteq> 0"
    by simp
  note b = expo_bounds [OF zn]
  have "\<not> expo z < e"
  proof
    assume "expo z < e"
    then have "expo z + 1 \<le> e" by simp
    then have "(2::rat) powi (expo z + 1) \<le> 2 powi e" by (rule two_powi_mono)
    with assms(1) b(2) show False by linarith
  qed
  moreover have "\<not> e < expo z"
  proof
    assume "e < expo z"
    then have "e + 1 \<le> expo z" by simp
    then have "(2::rat) powi (e + 1) \<le> 2 powi expo z" by (rule two_powi_mono)
    with assms(2) b(1) show False by linarith
  qed
  ultimately show ?thesis by simp
qed

lemma fl_power2:
  assumes "52 \<le> n"
  shows "fl (2 ^ n) = 2 ^ n"
proof -
  have p: "(2::rat) powi int n = 2 ^ n"
    by simp
  have p1: "(2::rat) powi (int n + 1) = 2 * 2 ^ n"
    by (simp add: power_int_add)
  have e: "expo (2 ^ n) = int n"
  proof (rule expo_unique)
    show "2 powi int n \<le> \<bar>(2::rat) ^ n\<bar>"
      by simp
    show "\<bar>(2::rat) ^ n\<bar> < 2 powi (int n + 1)"
      unfolding p1 by simp
  qed
  have k: "ulp_exp (2 ^ n) = int n - 52"
    using assms by (simp add: ulp_exp_def e)
  have "int n = 52 + (int n - 52)"
    by simp
  then have "(2::rat) powi int n = 2 powi 52 * 2 powi (int n - 52)"
    by (metis two_powi_add)
  then have q: "(2::rat) ^ n = of_int (2 ^ 52) * 2 powi (int n - 52)"
    by simp
  then have "(2::rat) ^ n / 2 powi (int n - 52) = of_int (2 ^ 52)"
    by simp
  then have "round_half_even ((2::rat) ^ n / 2 powi (int n - 52)) = 2 ^ 52"
    by (simp only: rhe_of_int)
  then show ?thesis
    unfolding fl_multiple [of "2 ^ n"] k using q by simp
qed

lemma fl_overflow:
  assumes "52 \<le> n" and "2 ^ n \<le> a"
  shows "2 ^ n \<le> fl (of_int a)"
proof -
  have "(of_int (2 ^ n) :: rat) \<le> of_int a"
    using assms(2) by (simp only: of_int_le_iff)
  then have "(2::rat) ^ n \<le> of_int a"
    by simp
  then show ?thesis
    by (rule fl_ge [OF fl_power2 [OF assms(1)]])
qed

lemma rhe_neg: "round_half_even (- y) = - round_half_even y"
proof (cases "y = of_int \<lfloor>y\<rfloor>")
  case True
  then obtain n where "y = of_int n" ..
  then have "- y = of_int (- n)" by simp
  then show ?thesis
    unfolding \<open>y = of_int n\<close> by (simp only: rhe_of_int flip: of_int_minus)
next
  case False
  then have c: "\<lceil>y\<rceil> = \<lfloor>y\<rfloor> + 1"
    by (simp add: ceiling_altdef)
  have f: "\<lfloor>- y\<rfloor> = - \<lfloor>y\<rfloor> - 1"
    by (simp add: floor_minus c)
  have d: "0 < y - of_int \<lfloor>y\<rfloor>"
    using False by (metis diff_gt_0_iff_gt of_int_floor_le order_le_less)
  show ?thesis
    using d unfolding round_half_even_def Let_def f
    by (auto simp: algebra_simps)
qed

lemma fl_neg: "fl (- z) = - fl z"
  by (simp add: fl_def ulp_exp_def expo_def rhe_neg)

lemma fl_le:
  assumes "fl q = q" and "z \<le> q"
  shows "fl z \<le> q"
proof -
  have "fl (- q) = - q"
    using assms(1) by (simp add: fl_neg)
  moreover have "- q \<le> - z"
    using assms(2) by simp
  ultimately have "- q \<le> fl (- z)"
    by (rule fl_ge)
  then show ?thesis
    by (simp add: fl_neg)
qed

lemma fl_abs_le:
  assumes "fl q = q" and "\<bar>z\<bar> \<le> q"
  shows "\<bar>fl z\<bar> \<le> q"
proof -
  have "fl z \<le> q"
    using assms by (intro fl_le) simp_all
  moreover have "fl (- q) = - q"
    using assms(1) by (simp add: fl_neg)
  then have "- q \<le> fl z"
    using assms(2) by (intro fl_ge) simp_all
  ultimately show ?thesis
    by simp
qed

lemma max_float_bounds: "2 ^ 1023 \<le> max_float" "max_float + 2 ^ 970 < 2 ^ 1024" "0 < max_float"
  by (simp_all add: max_float_def)

lemma ulp_exp_top:
  assumes "2 ^ 1023 \<le> \<bar>z\<bar>" and "\<bar>z\<bar> < 2 ^ 1024"
  shows "ulp_exp z = 971"
proof -
  have "expo z = 1023"
  proof (rule expo_unique)
    have "(2::rat) powi 1023 = 2 ^ 1023"
      using power_int_of_nat [of "2::rat" 1023] by simp
    then show "2 powi 1023 \<le> \<bar>z\<bar>"
      using assms(1) by simp
    have "(2::rat) powi (1023 + 1) = 2 ^ 1024"
      using power_int_of_nat [of "2::rat" 1024] by simp
    then show "\<bar>z\<bar> < 2 powi (1023 + 1)"
      using assms(2) by simp
  qed
  then show ?thesis
    by (simp add: ulp_exp_def)
qed

lemma fl_top:
  assumes "2 ^ 1023 \<le> \<bar>z\<bar>" and "\<bar>z\<bar> < 2 ^ 1024"
  shows "fl z = of_int (round_half_even (z / 2 ^ 971)) * 2 ^ 971"
proof -
  have "(2::rat) powi 971 = 2 ^ 971"
    using power_int_of_nat [of "2::rat" 971] by simp
  then show ?thesis
    using fl_multiple [of z] ulp_exp_top [OF assms] by simp
qed

lemma fl_near_max:
  assumes "max_float \<le> z" and "z < max_float + 2 ^ 970"
  shows "fl z = max_float"
proof -
  define t where "t = z / 2 ^ 971"
  have z: "\<bar>z\<bar> = z"
    using assms(1) max_float_bounds(3) by simp
  have "2 ^ 1023 \<le> \<bar>z\<bar>" "\<bar>z\<bar> < 2 ^ 1024"
    using assms max_float_bounds unfolding z by linarith+
  then have f: "fl z = of_int (round_half_even t) * 2 ^ 971"
    unfolding t_def by (rule fl_top)
  have lo: "of_int (2 ^ 53 - 1) \<le> t"
    using assms(1) by (simp add: t_def max_float_def pos_le_divide_eq)
  have "t < (max_float + 2 ^ 970) / 2 ^ 971"
    unfolding t_def using assms(2) by (simp only: divide_strict_right_mono zero_less_power zero_less_numeral)
  also have "(max_float + 2 ^ 970) / 2 ^ 971 = of_int (2 ^ 53 - 1) + 1 / 2"
    by (simp add: max_float_def)
  finally have hi: "t < of_int (2 ^ 53 - 1) + 1 / 2" .
  have "round_half_even (of_int (2 ^ 53 - 1)) \<le> round_half_even t"
    using lo by (rule rhe_mono)
  then have a: "2 ^ 53 - 1 \<le> round_half_even t"
    by (simp only: rhe_of_int)
  have "(of_int (round_half_even t) :: rat) < of_int (2 ^ 53 - 1) + 1"
    using rhe_bounds(2) [of t] hi by linarith
  then have "(of_int (round_half_even t) :: rat) < of_int (2 ^ 53 - 1 + 1)"
    by simp
  then have "round_half_even t < 2 ^ 53 - 1 + 1"
    by (simp only: of_int_less_iff)
  with a have "round_half_even t = 2 ^ 53 - 1"
    by simp
  then show ?thesis
    unfolding f by (simp add: max_float_def)
qed

lemma fl_max_float: "fl max_float = max_float"
  using max_float_bounds by (intro fl_near_max) simp_all

lemma fl_abs_less:
  assumes "\<bar>z\<bar> < max_float + 2 ^ 970"
  shows "\<bar>fl z\<bar> \<le> max_float"
proof (cases "\<bar>z\<bar> \<le> max_float")
  case True
  then show ?thesis
    by (rule fl_abs_le [OF fl_max_float])
next
  case False
  then have "max_float \<le> \<bar>z\<bar>"
    by simp
  then have "fl \<bar>z\<bar> = max_float"
    using assms by (rule fl_near_max)
  moreover have "fl \<bar>z\<bar> = \<bar>fl z\<bar>"
  proof (cases "0 \<le> z")
    case True
    then show ?thesis
      using fl_nonneg [of z] by simp
  next
    case False
    then have "0 \<le> fl (- z)"
      by (intro fl_nonneg) simp
    with False show ?thesis
      by (simp add: fl_neg)
  qed
  ultimately show ?thesis
    by simp
qed

lemma is_float_le_max:
  assumes "is_float y"
  shows "\<bar>y\<bar> \<le> max_float"
proof (rule ccontr)
  assume "\<not> \<bar>y\<bar> \<le> max_float"
  then have gt: "max_float < \<bar>y\<bar>"
    by simp
  have lt: "\<bar>y\<bar> < 2 ^ 1024" and y: "fl y = y"
    using assms by (simp_all add: is_float_def)
  define m where "m = round_half_even (y / 2 ^ 971)"
  have "2 ^ 1023 \<le> \<bar>y\<bar>"
    using gt max_float_bounds(1) by linarith
  then have "fl y = of_int m * 2 ^ 971"
    unfolding m_def using lt by (rule fl_top)
  then have "\<bar>y\<bar> = of_int \<bar>m\<bar> * 2 ^ 971"
    using y by (simp add: abs_mult)
  then have "of_int (2 ^ 53 - 1) * 2 ^ 971 < (of_int \<bar>m\<bar> :: rat) * 2 ^ 971"
    and "(of_int \<bar>m\<bar> :: rat) * 2 ^ 971 < of_int (2 ^ 53) * 2 ^ 971"
    using gt lt by (simp_all add: max_float_def)
  then have "(of_int (2 ^ 53 - 1) :: rat) < of_int \<bar>m\<bar>" and "(of_int \<bar>m\<bar> :: rat) < of_int (2 ^ 53)"
    by (simp_all only: mult_less_cancel_right_pos zero_less_power zero_less_numeral)
  then have "2 ^ 53 - 1 < \<bar>m\<bar>" and "\<bar>m\<bar> < 2 ^ 53"
    by (simp_all only: of_int_less_iff)
  then show False
    by simp
qed

lemma fl_add_in_range:
  assumes "is_float y" and "\<bar>c\<bar> \<le> 400"
  shows "\<bar>fl (y + c)\<bar> \<le> max_float"
proof -
  have "\<bar>y + c\<bar> \<le> max_float + 400"
    using is_float_le_max [OF assms(1)] assms(2) by linarith
  also have "max_float + 400 < max_float + 2 ^ 970"
    by simp
  finally show ?thesis
    by (rule fl_abs_less)
qed

lemma round2_in_range:
  assumes "\<bar>x\<bar> \<le> max_float"
  shows "\<bar>round2 x\<bar> \<le> max_float"
proof -
  define r where "r = (of_int (round_half_even (x * 100)) :: rat)"
  have "x * 100 - 1 / 2 \<le> r" "r \<le> x * 100 + 1 / 2"
    unfolding r_def by (rule rhe_bounds)+
  then have "\<bar>r / 100\<bar> \<le> \<bar>x\<bar> + 1"
    by (simp add: abs_le_iff pos_divide_le_eq pos_le_divide_eq) linarith
  then have "\<bar>r / 100\<bar> \<le> max_float + 1"
    using assms by linarith
  also have "max_float + 1 < max_float + 2 ^ 970"
    by simp
  finally show ?thesis
    unfolding round2_def r_def by (rule fl_abs_less)
qed

lemma fl_of_multiple:
  assumes "w = of_int n * 2 powi ulp_exp w"
  shows "fl w = w"
proof -
  have "w / 2 powi ulp_exp w = of_int n"
    using assms two_powi_pos [of "ulp_exp w"] by (simp add: nonzero_divide_eq_eq)
  then show ?thesis
    unfolding fl_multiple [of w] using assms by (simp only: rhe_of_int)
qed

lemma two_powi_less_cancel:
  assumes "(2::rat) powi a < 2 powi b"
  shows "a < b"
proof (rule ccontr)
  assume "\<not> a < b"
  then have "(2::rat) powi b \<le> 2 powi a"
    by (intro two_powi_mono) simp
  with assms show False
    by simp
qed

lemma fl_of_scaled:
  assumes k: "- 1074 \<le> k" and m: "\<bar>m\<bar> \<le> 2 ^ 53" and w: "w = of_int m * 2 powi k"
  shows "fl w = w"
proof (cases "w = 0")
  case True
  then show ?thesis
    by (simp add: fl_def)
next
  case False
  have aw: "\<bar>w\<bar> = of_int \<bar>m\<bar> * 2 powi k"
    unfolding w by (simp add: abs_mult)
  show ?thesis
  proof (cases "\<bar>m\<bar> = 2 ^ 53")
    case True
    have p: "(2::rat) powi (53 + k) = 2 ^ 53 * 2 powi k"
      using two_powi_add [of 53 k] power_int_of_nat [of "2::rat" 53] by simp
    have q: "(2::rat) powi (53 + k + 1) = 2 * (2 ^ 53 * 2 powi k)"
      using two_powi_add [of 1 "53 + k"] p by (simp add: add.commute)
    have e: "expo w = 53 + k"
    proof (rule expo_unique)
      show "2 powi (53 + k) \<le> \<bar>w\<bar>"
        unfolding aw True p by simp
      show "\<bar>w\<bar> < 2 powi (53 + k + 1)"
        unfolding aw True q by simp
    qed
    have u: "ulp_exp w = k + 1"
      using k by (simp add: ulp_exp_def e)
    have "(2::rat) powi k * 2 = 2 powi (k + 1)"
      using two_powi_add [of k 1] by simp
    then have "w = of_int (m div 2) * 2 powi (k + 1)"
    proof -
      have "m = 2 ^ 53 \<or> m = - (2 ^ 53)"
        using True by linarith
      then have "m = m div 2 * 2"
        by auto
      then have "(of_int m :: rat) = of_int (m div 2) * 2"
        by (metis of_int_mult of_int_numeral)
      then show ?thesis
        unfolding w using \<open>(2::rat) powi k * 2 = 2 powi (k + 1)\<close>
        by (simp add: mult.assoc)
    qed
    then show ?thesis
      using u by (intro fl_of_multiple [of w "m div 2"]) simp
  next
    case False
    then have "\<bar>m\<bar> < 2 ^ 53"
      using m by simp
    then have "(of_int \<bar>m\<bar> :: rat) < of_int (2 ^ 53)"
      by (simp only: of_int_less_iff)
    then have "\<bar>w\<bar> < 2 ^ 53 * 2 powi k"
      unfolding aw by simp
    also have "\<dots> = 2 powi (53 + k)"
      using two_powi_add [of 53 k] power_int_of_nat [of "2::rat" 53] by simp
    finally have "\<bar>w\<bar> < 2 powi (53 + k)" .
    moreover have "2 powi expo w \<le> \<bar>w\<bar>"
      using \<open>w \<noteq> 0\<close> by (rule expo_bounds)
    ultimately have "(2::rat) powi expo w < 2 powi (53 + k)"
      by linarith
    then have "expo w < 53 + k"
      by (rule two_powi_less_cancel)
    then have u: "ulp_exp w \<le> k"
      using k by (simp add: ulp_exp_def)
    define d where "d = k - ulp_exp w"
    have d0: "0 \<le> d"
      using u by (simp add: d_def)
    have "(2::rat) powi k = 2 powi (d + ulp_exp w)"
      by (simp add: d_def)
    also have "\<dots> = of_int (2 ^ nat d) * 2 powi ulp_exp w"
      unfolding two_powi_add using two_powi_nat [OF d0] by simp
    finally have "w = of_int (m * 2 ^ nat d) * 2 powi ulp_exp w"
      unfolding w by (simp add: mult.assoc)
    then show ?thesis
      by (rule fl_of_multiple)
  qed
qed

lemma rhe_abs_le:
  assumes "\<bar>t\<bar> \<le> of_int n"
  shows "\<bar>round_half_even t\<bar> \<le> n"
proof -
  have "round_half_even t \<le> round_half_even (of_int n)"
    using assms by (intro rhe_mono) simp
  moreover have "round_half_even (of_int (- n)) \<le> round_half_even t"
    using assms by (intro rhe_mono) simp
  ultimately show ?thesis
    unfolding rhe_of_int by linarith
qed

lemma fl_idem: "fl (fl z) = fl z"
proof (cases "z = 0")
  case True
  then show ?thesis
    by (simp add: fl_def)
next
  case False
  define k where "k = ulp_exp z"
  define m where "m = round_half_even (z / 2 powi k)"
  have k: "- 1074 \<le> k" and ke: "expo z - 52 \<le> k"
    by (simp_all add: k_def ulp_exp_def)
  have "\<bar>z\<bar> < 2 powi (expo z + 1)"
    using False by (rule expo_bounds)
  also have "\<dots> \<le> 2 powi (53 + k)"
    using ke by (intro two_powi_mono) simp
  also have "\<dots> = 2 ^ 53 * 2 powi k"
    using two_powi_add [of 53 k] power_int_of_nat [of "2::rat" 53] by simp
  finally have "\<bar>z\<bar> / 2 powi k < 2 ^ 53"
    by (simp add: pos_divide_less_eq)
  then have "\<bar>z / 2 powi k\<bar> \<le> of_int (2 ^ 53)"
    by simp
  then have "\<bar>m\<bar> \<le> 2 ^ 53"
    unfolding m_def by (rule rhe_abs_le)
  moreover have "fl z = of_int m * 2 powi k"
    unfolding m_def k_def by (rule fl_multiple)
  ultimately show ?thesis
    using k by (intro fl_of_scaled [of k m])
qed

lemma max_float_less: "max_float < 2 ^ 1024"
  by (simp add: max_float_def)

lemma is_float_fl:
  assumes "\<bar>fl z\<bar> \<le> max_float"
  shows "is_float (fl z)"
  using assms max_float_less by (simp add: is_float_def fl_idem)

lemma is_float_add:
  assumes "is_float y" and "\<bar>c\<bar> \<le> 400"
  shows "is_float (fl (y + c))"
  using fl_add_in_range [OF assms] by (rule is_float_fl)

lemma is_float_round2_add:
  assumes "is_float y" and "\<bar>c\<bar> \<le> 400"
  shows "is_float (round2 (fl (y + c)))"
proof -
  have "\<bar>round2 (fl (y + c))\<bar> \<le> max_float"
    using fl_add_in_range [OF assms] by (rule round2_in_range)
  then show ?thesis
    unfolding round2_def by (rule is_float_fl)
qed

lemma map_of_set_fields3:
  "map_of (set_fields [(k1, v1), (k2, v2), (k3, v3)] r) = (map_of r)(k1 \<mapsto> v1, k2 \<mapsto> v2, k3 \<mapsto> v3)"
  by (simp add: set_fields_def update_conv')

lemma increment_success:
  assumes "select_execute e = None" and "update_execute e = None"
    and "system_metrics w = current # rest"
    and "update_arguments current = Inr (cols, i)"
  shows "increment_system_metrics e w =
     (None, w\<lparr>calls := calls w @ [Select, Update cols i],
              system_metrics :=
                map (\<lambda>r. if map_of r ''id'' = Some i then set_fields cols r else r)
                  (system_metrics w)\<rparr>)"
  using assms
  by (simp add: increment_eq select_single_def write_metrics_def update_eq_id_def Let_def)

lemma summarize_tab_metrics:
  assumes "generate_summary e p = Inr (sm, tg)" and "insert_execute e = None"
  shows "system_metrics (snd (summarize_tab e p w)) =
           system_metrics (snd (increment_system_metrics e
             (w\<lparr>calls := calls w @ [Generate (user_prompt p), Insert (archived_tab e p sm tg)],
                archived_tabs := archived_tabs w @ [archived_tab e p sm tg]\<rparr>)))"
    and "calls (snd (summarize_tab e p w)) =
           calls (snd (increment_system_metrics e
             (w\<lparr>calls := calls w @ [Generate (user_prompt p), Insert (archived_tab e p sm tg)],
                archived_tabs := archived_tabs w @ [archived_tab e p sm tg]\<rparr>)))"
proof -
  let ?w2 = "w\<lparr>calls := calls w @ [Generate (user_prompt p), Insert (archived_tab e p sm tg)],
               archived_tabs := archived_tabs w @ [archived_tab e p sm tg]\<rparr>"
  have ins: "insert_archived_tab e p sm tg (w\<lparr>calls := calls w @ [Generate (user_prompt p)]\<rparr>) = (None, ?w2)"
    using assms(2) by (simp add: insert_archived_tab_def Let_def)
  obtain r w3 where inc: "increment_system_metrics e ?w2 = (r, w3)"
    by (cases "increment_system_metrics e ?w2")
  show "system_metrics (snd (summarize_tab e p w)) = system_metrics (snd (increment_system_metrics e ?w2))"
    by (simp add: summarize_tab_def assms(1) ins inc Let_def split: option.splits)
  show "calls (snd (summarize_tab e p w)) = calls (snd (increment_system_metrics e ?w2))"
    by (simp add: summarize_tab_def assms(1) ins inc Let_def split: option.splits)
qed

lemma run_schedule_sequential:
  "run_schedule e [ReadMetrics i, WriteMetrics i] w = snd (increment_system_metrics e w)"
proof (cases "fst (select_single e w)")
  case (Inl x)
  then have "select_single e w = (Inl x, w\<lparr>calls := calls w @ [Select]\<rparr>)"
    using select_single_snd [of e w] by (cases "select_single e w") simp
  with Inl show ?thesis
    by (simp add: run_schedule_def increment_eq)
next
  case (Inr r)
  then have "select_single e w = (Inr r, w\<lparr>calls := calls w @ [Select]\<rparr>)"
    using select_single_snd [of e w] by (cases "select_single e w") simp
  with Inr show ?thesis
    by (simp add: run_schedule_def increment_eq)
qed

lemma two_request_schedules:
  "interleaving 2 [ReadMetrics 0, ReadMetrics 1, WriteMetrics 0, WriteMetrics 1]"
  "interleaving 2 [ReadMetrics 0, WriteMetrics 0, ReadMetrics 1, WriteMetrics 1]"
  by (simp_all add: interleaving_def)


lemma validate_request_strings:
  assumes "map_of kvs ''url'' = Some (JString u)" and "map_of kvs ''title'' = Some (JString t)"
    and "map_of kvs ''content'' = Some (JString c)"
  shows "validate_request (JObject kvs) = Some \<lparr>url = u, title = t, content = c\<rparr>"
  using assms by (simp add: validate_request_def str_field_def)

lemma str_field_None: "\<forall>s. map_of kvs k \<noteq> Some (JString s) \<Longrightarrow> str_field kvs k = None"
  by (auto simp: str_field_def split: option.splits jval.splits)

lemma validate_request_bad_field:
  assumes "k \<in> {''url'', ''title'', ''content''}" and "\<forall>s. map_of kvs k \<noteq> Some (JString s)"
  shows "validate_request (JObject kvs) = None"
  using assms(1) str_field_None [OF assms(2)]
  by (auto simp: validate_request_def split: option.splits)

lemma validate_request_not_object: "\<forall>kvs. body \<noteq> JObject kvs \<Longrightarrow> validate_request body = None"
  by (cases body) (auto simp: validate_request_def)

lemma demo_text_eq: "demo_text = fence @ ''json'' @ nl # demo_body @ nl # fence @ []"
  by (simp add: demo_text_def demo_body_def fence_def)

lemma summarize_tab_cong:
  assumes "generate_summary e' p = generate_summary e p"
    and "insert_execute e' = insert_execute e" and "select_execute e' = select_execute e"
    and "single_no_row e' = single_no_row e" and "update_execute e' = update_execute e"
    and "utcnow_isoformat e' = utcnow_isoformat e"
  shows "summarize_tab e' p w = summarize_tab e p w"
  using assms
  by (simp add: summarize_tab_def insert_archived_tab_def archived_tab_def
      increment_system_metrics_def select_single_def write_metrics_def update_eq_id_def Let_def
      cong: sum.case_cong prod.case_cong option.case_cong list.case_cong)

lemma generate_summary_text:
  "generate_summary (e\<lparr>generate_content := \<lambda>prompt. Inr text\<rparr>) p =
     (case parse_model_text (json_loads e) text of
        Inl r \<Rightarrow> Inl (except_clauses r)
      | Inr st \<Rightarrow> Inr st)"
  by (simp add: generate_summary_def try_block_def)

lemma summarize_tab_parse_error:
  assumes "generate_content e (user_prompt p) = Inr text"
    and "parse_model_text (json_loads e) text = Inl r"
  shows "summarize_tab e p w = (except_clauses r, w\<lparr>calls := calls w @ [Generate (user_prompt p)]\<rparr>)"
  using assms by (simp add: summarize_tab_def generate_summary_def try_block_def)

lemma type_name_length: "length (type_name v) \<le> 8"
  by (cases v) simp_all


lemma split_at_first_nl:
  assumes "nl \<notin> set line"
  shows "tl (dropWhile (\<lambda>x. x \<noteq> nl) (line @ nl # rest)) = rest"
proof -
  have "\<forall>x \<in> set line. x \<noteq> nl"
    using assms by auto
  then show ?thesis
    using dropWhile_prefix_all [of line "\<lambda>x. x \<noteq> nl" "nl # rest"] by simp
qed

subsection \<open>Float values of the examples\<close>

lemma literal_0_18_ge: "17 / 100 \<le> literal_0_18"
  by code_simp

lemma literal_0_18_le: "literal_0_18 \<le> 19 / 100"
  by code_simp

lemma literal_0_18_float: "fl literal_0_18 = literal_0_18"
  by code_simp

lemma round2_literal_0_18: "round2 literal_0_18 = literal_0_18"
  by code_simp

lemma round2_twice_0_18:
  "round2 (fl (literal_0_18 + literal_0_18)) = fl (36 / 100)"
  "round2 (fl (2 * literal_0_18)) = fl (36 / 100)"
  by code_simp+

lemma demo_power_float: "fl demo_power = demo_power"
  by code_simp

lemma demo_power_written: "round2 (fl (demo_power + literal_0_18)) = fl (101 / 100)"
  by code_simp

lemma demo_power_unrounded: "fl (demo_power + literal_0_18) \<noteq> fl (101 / 100)"
  by code_simp

text \<open>
  The sum is rounded, not the summand: rounding \<open>71.23\<close> first and adding then gives
  another float than adding and rounding then. A float of the size of \<open>1e16\<close> absorbs the
  addition of \<open>0.18\<close>.
\<close>

lemma round_after_add_differs:
  "fl (round2 (fl (7123 / 100)) + literal_0_18) \<noteq> round2 (fl (fl (7123 / 100) + literal_0_18))"
  by code_simp

lemma absorbed_at_1e16: "round2 (fl (fl (10 ^ 16) + literal_0_18)) = 10 ^ 16"
  by code_simp

lemma demo_odd_float: "fl (of_int demo_odd) = 2 ^ 53"
  by code_simp

lemma demo_odd_written: "round2 (fl (2 ^ 53 + literal_0_18)) = 2 ^ 53"
  by code_simp

lemma demo_huge_overflow:
  "float_of_int demo_huge = Inl (Exn OverflowError ''int too large to convert to float'')"
proof -
  have "(2::int) ^ 1024 \<le> demo_huge"
    by (simp add: demo_huge_def)
  then have "(2::rat) ^ 1024 \<le> fl (of_int demo_huge)"
    using fl_overflow [of 1024 demo_huge] by simp
  then have "\<not> \<bar>fl (of_int demo_huge)\<bar> < 2 ^ 1024"
    by linarith
  then show ?thesis
    by (simp add: float_of_int_def)
qed

lemma float_of_int_exact:
  "is_float (of_int a) \<Longrightarrow> float_of_int a = Inr (of_int a)"
  by (simp add: float_of_int_def is_float_def)

lemma add_float_number:
  "number v = Some x \<Longrightarrow> is_float x \<Longrightarrow> add_float v c = Inr (fl (x + c))"
  by (cases v) (simp_all add: float_of_int_exact)

lemma float_of_int_400: "float_of_int 400 = Inr 400"
  by code_simp

lemma add_int_400:
  assumes "stored_number v" and "number v = Some x"
  shows "\<exists>v' x'. add_int v 400 = Inr v' \<and> number v' = Some x' \<and> x \<le> x'
      \<and> stored_number v'
      \<and> ((\<exists>n. v = JInt n \<and> v' = JInt (n + 400))
           \<or> (\<exists>y. v = JFloat y \<and> v' = JFloat (fl (y + 400))))"
proof (cases v)
  case (JInt n)
  with assms(2) show ?thesis by simp
next
  case (JFloat y)
  with assms have y: "fl y = y" "x = y" "is_float y"
    by (simp_all add: is_float_def)
  have "y \<le> fl (y + 400)"
    using y(1) by (rule fl_ge) simp
  moreover have "is_float (fl (y + 400))"
    using y(3) by (rule is_float_add) simp
  ultimately show ?thesis
    using JFloat y(2) by (simp add: float_of_int_400)
qed (use assms in simp_all)

lemma malformed_answer_502:
  assumes "generate_content e (user_prompt p) = Inr text"
    and "strip_fences (strip text) = Inr raw_text"
  shows "(\<forall>x. json_loads e raw_text = Inl x \<and> exn_cls x = JSONDecodeError \<longrightarrow>
            summarize_tab e p w =
              (HTTPException 502 (''Gemini returned non-JSON response: '' @ take 200 raw_text),
               w\<lparr>calls := calls w @ [Generate (user_prompt p)]\<rparr>)
            \<and> length (''Gemini returned non-JSON response: '' @ take 200 raw_text) \<le> 235
            \<and> \<not> startswith (''Gemini returned non-JSON response: '' @ take 200 raw_text)
                  ''Vertex AI error: '')
     \<and> (\<forall>kvs. json_loads e raw_text = Inr (JObject kvs)
            \<and> (map_of kvs ''summary'' = None \<or> map_of kvs ''summary'' = Some (JString [])
                \<or> (\<exists>v. map_of kvs ''tags'' = Some v \<and> (\<forall>vs. v \<noteq> JArray vs))) \<longrightarrow>
            summarize_tab e p w =
              (HTTPException 502 ''Vertex AI error: Model returned unexpected structure'',
               w\<lparr>calls := calls w @ [Generate (user_prompt p)]\<rparr>))
     \<and> (\<forall>v. json_loads e raw_text = Inr v \<and> (\<forall>kvs. v \<noteq> JObject kvs) \<longrightarrow>
            summarize_tab e p w =
              (HTTPException 502 (''Vertex AI error: '' @ [CHR 0x27] @ type_name v @ [CHR 0x27]
                 @ '' object has no attribute '' @ [CHR 0x27] @ ''get'' @ [CHR 0x27]),
               w\<lparr>calls := calls w @ [Generate (user_prompt p)]\<rparr>)
            \<and> length (''Vertex AI error: '' @ [CHR 0x27] @ type_name v @ [CHR 0x27]
                 @ '' object has no attribute '' @ [CHR 0x27] @ ''get'' @ [CHR 0x27]) \<le> 57)"
proof (intro conjI allI impI)
  fix x
  assume a: "json_loads e raw_text = Inl x \<and> exn_cls x = JSONDecodeError"
  then have "parse_model_text (json_loads e) text = Inl (x, Some raw_text)"
    using assms(2) by (simp add: parse_model_text_def)
  from summarize_tab_parse_error [OF assms(1) this] a
  show "summarize_tab e p w =
      (HTTPException 502 (''Gemini returned non-JSON response: '' @ take 200 raw_text),
       w\<lparr>calls := calls w @ [Generate (user_prompt p)]\<rparr>)"
    by (simp add: except_clauses_def)
  show "length (''Gemini returned non-JSON response: '' @ take 200 raw_text) \<le> 235"
    by simp
  show "\<not> startswith (''Gemini returned non-JSON response: '' @ take 200 raw_text) ''Vertex AI error: ''"
    by (simp add: startswith_def)
next
  fix kvs
  assume a: "json_loads e raw_text = Inr (JObject kvs)
      \<and> (map_of kvs ''summary'' = None \<or> map_of kvs ''summary'' = Some (JString [])
          \<or> (\<exists>v. map_of kvs ''tags'' = Some v \<and> (\<forall>vs. v \<noteq> JArray vs)))"
  have nl: "\<not> isinstance_list v" if "\<forall>vs. v \<noteq> JArray vs" for v
    using that by (cases v) auto
  from a have "parse_model_text (json_loads e) text =
      Inl (Exn ValueError ''Model returned unexpected structure'', Some raw_text)"
    using assms(2) nl by (auto simp: parse_model_text_def dict_get_def split: option.splits)
  from summarize_tab_parse_error [OF assms(1) this]
  show "summarize_tab e p w =
      (HTTPException 502 ''Vertex AI error: Model returned unexpected structure'',
       w\<lparr>calls := calls w @ [Generate (user_prompt p)]\<rparr>)"
    by (simp add: except_clauses_def)
next
  fix v
  assume a: "json_loads e raw_text = Inr v \<and> (\<forall>kvs. v \<noteq> JObject kvs)"
  then have "dict_get v ''summary'' (JString []) =
      Inl (Exn AttributeError ([CHR 0x27] @ type_name v @ [CHR 0x27] @ '' object has no attribute ''
                  @ [CHR 0x27] @ ''get'' @ [CHR 0x27]))"
    by (cases v) (simp_all add: dict_get_def)
  with a have "parse_model_text (json_loads e) text =
      Inl (Exn AttributeError ([CHR 0x27] @ type_name v @ [CHR 0x27] @ '' object has no attribute ''
                  @ [CHR 0x27] @ ''get'' @ [CHR 0x27]), Some raw_text)"
    using assms(2) by (simp add: parse_model_text_def)
  from summarize_tab_parse_error [OF assms(1) this]
  show "summarize_tab e p w =
      (HTTPException 502 (''Vertex AI error: '' @ [CHR 0x27] @ type_name v @ [CHR 0x27]
         @ '' object has no attribute '' @ [CHR 0x27] @ ''get'' @ [CHR 0x27]),
       w\<lparr>calls := calls w @ [Generate (user_prompt p)]\<rparr>)"
    by (simp add: except_clauses_def)
  show "length (''Vertex AI error: '' @ [CHR 0x27] @ type_name v @ [CHR 0x27]
         @ '' object has no attribute '' @ [CHR 0x27] @ ''get'' @ [CHR 0x27]) \<le> 57"
    using type_name_length [of v] by simp
qed

section \<open>The claims of the specification\<close>

subsection \<open>C3: a failure of the metrics step does not fail the request\<close>



subsection \<open>C5: a failure of the insert is a persistence error\<close>

text \<open>
  C5. Let the model call and the parsing of its answer succeed. If the insert into
  \<open>archived_tabs\<close> raises \<open>x\<close>, the handler raises the HTTP error 500 whose detail names the
  insert (not the 502 of the model step); the calls made are the model call and the
  insert, so the metrics table is neither read nor updated, and no table and no printed
  line changes.
\<close>

theorem insert_failure_is_500:
  assumes "generate_summary e p = Inr (sm, tg)"
    and "insert_execute e = Some x"
  shows "fst (summarize_tab e p w) = HTTPException 500 (''Supabase insert error: '' @ str_exn x)
     \<and> calls (snd (summarize_tab e p w)) =
         calls w @ [Generate (user_prompt p), Insert (archived_tab e p sm tg)]
     \<and> system_metrics (snd (summarize_tab e p w)) = system_metrics w
     \<and> archived_tabs (snd (summarize_tab e p w)) = archived_tabs w
     \<and> printed (snd (summarize_tab e p w)) = printed w"
  by (simp add: summarize_tab_insert_fails [OF assms])

theorem insert_failure_is_500_witness:
  "fst (summarize_tab (demo_env demo_text\<lparr>insert_execute := Some (Exn OtherError ''connection refused'')\<rparr>)
        demo_payload demo_world) =
     HTTPException 500 ''Supabase insert error: connection refused''
   \<and> system_metrics (snd (summarize_tab (demo_env demo_text\<lparr>insert_execute := Some (Exn OtherError ''connection refused'')\<rparr>)
        demo_payload demo_world)) = [demo_metrics]
   \<and> archived_tabs (snd (summarize_tab (demo_env demo_text\<lparr>insert_execute := Some (Exn OtherError ''connection refused'')\<rparr>)
        demo_payload demo_world)) = []"
proof -
  let ?e = "demo_env demo_text\<lparr>insert_execute := Some (Exn OtherError ''connection refused'')\<rparr>"
  have g: "generate_summary ?e demo_payload =
      Inr (JString ''s'', JArray [JString ''x'', JString ''y'', JString ''z''])"
    using generate_summary_cong [of ?e "demo_env demo_text" demo_payload] demo_generate_summary
    by simp
  have i: "insert_execute ?e = Some (Exn OtherError ''connection refused'')"
    by (simp add: demo_env_def)
  show ?thesis
    using insert_failure_is_500 [OF g i, of demo_world] by (simp add: demo_world_def)
qed

subsection \<open>C9: the prompt and the cap on the content\<close>

text \<open>
  C9. For every request the first call the handler makes is the call of the model, and
  its prompt is the title, the URL and the first 30000 characters of the content under
  their three headings; this prompt is the argument the model client is applied to. A
  content longer than 30000 characters is cut to exactly its first 30000 characters (no
  branch of the handler raises for it), a content of at most 30000 characters is in the
  prompt as it is.
\<close>

theorem prompt_caps_content:
  "(\<exists>rest. calls (snd (summarize_tab e p w)) =
       calls w @ Generate (''Title: '' @ title p @ [nl] @ ''URL: '' @ url p @ [nl, nl]
                            @ ''Page content:'' @ [nl] @ take 30000 (content p)) # rest)
   \<and> generate_summary e p =
       (case (case generate_content e (''Title: '' @ title p @ [nl] @ ''URL: '' @ url p @ [nl, nl]
                            @ ''Page content:'' @ [nl] @ take 30000 (content p)) of
                Inl x \<Rightarrow> Inl (x, None)
              | Inr text \<Rightarrow> parse_model_text (json_loads e) text) of
          Inl r \<Rightarrow> Inl (except_clauses r)
        | Inr st \<Rightarrow> Inr st)
   \<and> (30000 < length (content p) \<longrightarrow>
        length (take 30000 (content p)) = 30000
        \<and> take 30000 (content p) @ drop 30000 (content p) = content p)
   \<and> (length (content p) \<le> 30000 \<longrightarrow> take 30000 (content p) = content p)"
  using summarize_tab_first_call [of e p w]
  by (simp add: user_prompt_def generate_summary_def try_block_def)

theorem prompt_caps_content_witness:
  "(\<exists>rest. calls (snd (summarize_tab (demo_env demo_text)
        \<lparr>url = ''http://a'', title = ''A'', content = replicate 30001 (CHR ''x'')\<rparr> demo_world)) =
       [] @ Generate (''Title: '' @ ''A'' @ [nl] @ ''URL: '' @ ''http://a'' @ [nl, nl]
                            @ ''Page content:'' @ [nl] @ replicate 30000 (CHR ''x'')) # rest)
   \<and> (30000 :: nat) < length (replicate 30001 (CHR ''x''))
   \<and> length (take 30000 (replicate 30001 (CHR ''x''))) = 30000
   \<and> length ''hello'' \<le> (30000 :: nat)
   \<and> take 30000 ''hello'' = ''hello''"
  using prompt_caps_content [of "demo_env demo_text"
      "\<lparr>url = ''http://a'', title = ''A'', content = replicate 30001 (CHR ''x'')\<rparr>" demo_world]
    prompt_caps_content [of "demo_env demo_text" demo_payload demo_world]
  by (simp add: demo_world_def demo_payload_def)

subsection \<open>C4: a failure of the model step\<close>

text \<open>
  C4, at the input where the code departs from it. The model client raises a
  \<open>JSONDecodeError\<close> (the class the first \<open>except\<close> clause names). The clause formats its
  detail from \<open>raw_text\<close>, which is not bound yet, so an \<open>UnboundLocalError\<close> leaves the
  handler instead of the HTTP error 502. The store is as claimed: nothing is inserted and
  the metrics table is not read. For every other failure of the model call and for every
  failure of the parsing the handler raises 502 with the model call as its only call
  (\<open>generate_failure_502\<close>, \<open>parse_failure_502\<close>).
\<close>

theorem generate_raising_JSONDecodeError_is_not_502:
  "summarize_tab
     (demo_env []\<lparr>generate_content :=
        \<lambda>prompt. Inl (Exn JSONDecodeError ''Expecting value: line 1 column 1 (char 0)'')\<rparr>)
     demo_payload demo_world =
   (Uncaught UnboundLocalError, demo_world\<lparr>calls := [Generate (user_prompt demo_payload)]\<rparr>)"
  by (simp add: summarize_tab_def generate_summary_def try_block_def except_clauses_def
      demo_env_def demo_world_def)

subsection \<open>C2: the values the metrics step writes\<close>

text \<open>
  C2 as stated fails for a power counter that the store returns as an integer which
  \<open>float\<close> cannot hold. With the integer \<open>10 ^ 400\<close> in the row the sum \<open>p + 0.18\<close> raises
  \<open>OverflowError\<close>: the update is never called, the row stays as it was and the exception
  is only printed. With the integer \<open>2 ^ 53 + 1\<close> the conversion to \<open>float\<close> rounds to
  \<open>2 ^ 53\<close>, the sum and its rounding to two decimals stay there, and the update writes a
  value below the one that was read.
\<close>

theorem integer_power_counter_beyond_float:
  "system_metrics (snd (summarize_tab (demo_env demo_text) demo_payload
       (demo_world\<lparr>system_metrics := [metrics_row (JInt demo_huge)]\<rparr>))) =
     [metrics_row (JInt demo_huge)]
   \<and> calls (snd (summarize_tab (demo_env demo_text) demo_payload
       (demo_world\<lparr>system_metrics := [metrics_row (JInt demo_huge)]\<rparr>))) =
     [Generate (user_prompt demo_payload),
      Insert (archived_tab (demo_env demo_text) demo_payload (JString ''s'')
                (JArray [JString ''x'', JString ''y'', JString ''z''])),
      Select]
   \<and> printed (snd (summarize_tab (demo_env demo_text) demo_payload
       (demo_world\<lparr>system_metrics := [metrics_row (JInt demo_huge)]\<rparr>))) =
     [MetricsUpdateFailed (Exn OverflowError ''int too large to convert to float''),
      Archived ''A'' ''http://a'']
   \<and> system_metrics (snd (summarize_tab (demo_env demo_text) demo_payload
       (demo_world\<lparr>system_metrics := [metrics_row (JInt demo_odd)]\<rparr>))) =
     [[(''id'', JInt 1),
       (''total_tabs_closed'', JInt 1),
       (''total_ram_saved_mb'', JInt 400),
       (''total_power_saved_watts'', JFloat (2 ^ 53))]]
   \<and> (2 :: rat) ^ 53 < of_int demo_odd"
proof -
  let ?e = "demo_env demo_text"
  let ?sm = "JString ''s''" and ?tg = "JArray [JString ''x'', JString ''y'', JString ''z'']"
  have i: "insert_execute ?e = None" and s: "select_execute ?e = None"
    and u: "update_execute ?e = None"
    by (simp_all add: demo_env_def)
  have a1: "update_arguments (metrics_row (JInt demo_huge)) =
      Inl (Exn OverflowError ''int too large to convert to float'')"
    by (simp add: update_arguments_def metrics_row_def getitem_def demo_huge_overflow)
  have inc1: "increment_system_metrics ?e w =
      (Some (Exn OverflowError ''int too large to convert to float''),
       w\<lparr>calls := calls w @ [Select]\<rparr>)"
    if "system_metrics w = [metrics_row (JInt demo_huge)]" for w
    using that by (simp add: increment_eq select_single_def write_metrics_def a1 s Let_def)
  have f: "float_of_int demo_odd = Inr (2 ^ 53)"
    by (simp add: float_of_int_def demo_odd_float)
  have a2: "update_arguments (metrics_row (JInt demo_odd)) =
      Inr ([(''total_tabs_closed'', JInt 1),
            (''total_ram_saved_mb'', JInt 400),
            (''total_power_saved_watts'', JFloat (2 ^ 53))], JInt 1)"
    unfolding update_arguments_def metrics_row_def
    by (simp add: getitem_def f demo_odd_written [simplified])
  have inc2: "system_metrics (snd (increment_system_metrics ?e w)) =
      [[(''id'', JInt 1),
        (''total_tabs_closed'', JInt 1),
        (''total_ram_saved_mb'', JInt 400),
        (''total_power_saved_watts'', JFloat (2 ^ 53))]]"
    if "system_metrics w = [metrics_row (JInt demo_odd)]" for w
  proof -
    have "system_metrics w = metrics_row (JInt demo_odd) # []"
      using that by simp
    from increment_success [OF s u this a2] that show ?thesis
      by (simp add: metrics_row_def set_fields_def)
  qed
  let ?w1 = "demo_world\<lparr>system_metrics := [metrics_row (JInt demo_huge)]\<rparr>"
  let ?w2 = "demo_world\<lparr>system_metrics := [metrics_row (JInt demo_odd)]\<rparr>"
  let ?W1 = "?w1\<lparr>calls := calls ?w1 @
        [Generate (user_prompt demo_payload), Insert (archived_tab ?e demo_payload ?sm ?tg)],
        archived_tabs := archived_tabs ?w1 @ [archived_tab ?e demo_payload ?sm ?tg]\<rparr>"
  let ?W2 = "?w2\<lparr>calls := calls ?w2 @
        [Generate (user_prompt demo_payload), Insert (archived_tab ?e demo_payload ?sm ?tg)],
        archived_tabs := archived_tabs ?w2 @ [archived_tab ?e demo_payload ?sm ?tg]\<rparr>"
  note m1 = summarize_tab_metrics [OF demo_generate_summary i, of demo_payload ?w1]
  note p1 = summarize_tab_archived(3) [OF demo_generate_summary i, of demo_payload ?w1]
  note m2 = summarize_tab_metrics(1) [OF demo_generate_summary i, of demo_payload ?w2]
  have i1: "increment_system_metrics ?e ?W1 =
      (Some (Exn OverflowError ''int too large to convert to float''),
       ?W1\<lparr>calls := calls ?W1 @ [Select]\<rparr>)"
    by (rule inc1) simp
  have i1': "increment_system_metrics ?e ?w1 =
      (Some (Exn OverflowError ''int too large to convert to float''),
       ?w1\<lparr>calls := calls ?w1 @ [Select]\<rparr>)"
    by (rule inc1) simp
  have i2: "system_metrics (snd (increment_system_metrics ?e ?W2)) =
      [[(''id'', JInt 1),
        (''total_tabs_closed'', JInt 1),
        (''total_ram_saved_mb'', JInt 400),
        (''total_power_saved_watts'', JFloat (2 ^ 53))]]"
    by (rule inc2) simp
  have c1: "system_metrics (snd (summarize_tab ?e demo_payload ?w1)) =
     [metrics_row (JInt demo_huge)]"
    unfolding m1(1) i1 by simp
  have c2: "calls (snd (summarize_tab ?e demo_payload ?w1)) =
     [Generate (user_prompt demo_payload), Insert (archived_tab ?e demo_payload ?sm ?tg), Select]"
    unfolding m1(2) i1 by (simp add: demo_world_def)
  have c3: "printed (snd (summarize_tab ?e demo_payload ?w1)) =
     [MetricsUpdateFailed (Exn OverflowError ''int too large to convert to float''),
      Archived ''A'' ''http://a'']"
    unfolding p1 i1' by (simp add: demo_world_def demo_payload_def)
  have c4: "system_metrics (snd (summarize_tab ?e demo_payload ?w2)) =
     [[(''id'', JInt 1),
       (''total_tabs_closed'', JInt 1),
       (''total_ram_saved_mb'', JInt 400),
       (''total_power_saved_watts'', JFloat (2 ^ 53))]]"
    unfolding m2 by (rule i2)
  have c5: "(2 :: rat) ^ 53 < of_int demo_odd"
    by (simp add: demo_odd_def)
  show ?thesis
    using c1 c2 c3 c4 c5 by blast
qed

text \<open>
  C2, amended. Take a request whose model step and insert succeed and whose select and
  update are served without an error and without another request in between. Let the
  row the select returns (the first row of the table) hold the integer \<open>t\<close> in
  \<open>total_tabs_closed\<close>, a number of value \<open>r\<close> in \<open>total_ram_saved_mb\<close> (an integer, or a
  float), a number of value \<open>pw\<close> in \<open>total_power_saved_watts\<close> that is a float or an
  integer which \<open>float\<close> holds exactly, and the id \<open>i\<close>. Then the update is called with
  exactly three columns: \<open>t + 1\<close>; \<open>r + 400\<close>, computed on integers for an integer and as
  a float sum for a float; and \<open>round(pw + 0.18, 2)\<close>, the float sum rounded to two
  decimals (the sum is rounded, not the summands). It is called for the id \<open>i\<close>:
  afterwards the row that was read holds these three values and every other column of it
  is as before, the rows with another id are as before, and none of the three counters
  has gone down. The float operations do not overflow: the values written are again an
  integer, or a float, so that they meet the conditions on the row of the next request.
\<close>

theorem metrics_update_values:
  assumes "generate_summary e p = Inr (sm, tg)" and "insert_execute e = None"
    and "select_execute e = None" and "update_execute e = None"
    and "system_metrics w = current # rest"
    and "map_of current ''total_tabs_closed'' = Some (JInt t)"
    and "map_of current ''total_ram_saved_mb'' = Some vr"
    and "stored_number vr" and "number vr = Some r"
    and "map_of current ''total_power_saved_watts'' = Some vp"
    and "number vp = Some pw" and "is_float pw"
    and "map_of current ''id'' = Some i"
  shows "\<exists>vr' r' current' rest'.
      number vr' = Some r' \<and> r \<le> r'
    \<and> stored_number vr' \<and> is_float (round2 (fl (pw + literal_0_18)))
    \<and> ((\<exists>n. vr = JInt n \<and> vr' = JInt (n + 400))
         \<or> (\<exists>y. vr = JFloat y \<and> vr' = JFloat (fl (y + 400))))
    \<and> calls (snd (summarize_tab e p w)) =
        calls w @ [Generate (user_prompt p), Insert (archived_tab e p sm tg), Select,
                   Update [(''total_tabs_closed'', JInt (t + 1)),
                           (''total_ram_saved_mb'', vr'),
                           (''total_power_saved_watts'',
                            JFloat (round2 (fl (pw + literal_0_18))))] i]
    \<and> system_metrics (snd (summarize_tab e p w)) = current' # rest'
    \<and> map_of current' =
        (map_of current)(''total_tabs_closed'' \<mapsto> JInt (t + 1),
                         ''total_ram_saved_mb'' \<mapsto> vr',
                         ''total_power_saved_watts'' \<mapsto>
                           JFloat (round2 (fl (pw + literal_0_18))))
    \<and> length rest' = length rest
    \<and> (\<forall>j < length rest. map_of (rest ! j) ''id'' \<noteq> Some i \<longrightarrow> rest' ! j = rest ! j)
    \<and> t \<le> t + 1 \<and> pw \<le> round2 (fl (pw + literal_0_18))"
proof -
  obtain vr' r' where vr': "add_int vr 400 = Inr vr'" "number vr' = Some r'" "r \<le> r'"
    "stored_number vr'"
    "(\<exists>n. vr = JInt n \<and> vr' = JInt (n + 400)) \<or> (\<exists>y. vr = JFloat y \<and> vr' = JFloat (fl (y + 400)))"
    using add_int_400 [OF assms(8,9)] by blast
  let ?cols = "[(''total_tabs_closed'', JInt (t + 1)),
                (''total_ram_saved_mb'', vr'),
                (''total_power_saved_watts'', JFloat (round2 (fl (pw + literal_0_18))))]"
  let ?f = "\<lambda>r. if map_of r ''id'' = Some i then set_fields ?cols r else r"
  let ?w2 = "w\<lparr>calls := calls w @ [Generate (user_prompt p), Insert (archived_tab e p sm tg)],
               archived_tabs := archived_tabs w @ [archived_tab e p sm tg]\<rparr>"
  have args: "update_arguments current = Inr (?cols, i)"
    using assms(6,7,10,13) vr'(1) add_float_number [OF assms(11,12), of literal_0_18]
    by (simp add: update_arguments_def getitem_def)
  have sm2: "system_metrics ?w2 = current # rest"
    using assms(5) by simp
  have inc: "increment_system_metrics e ?w2 =
      (None, ?w2\<lparr>calls := calls ?w2 @ [Select, Update ?cols i],
                  system_metrics := map ?f (system_metrics ?w2)\<rparr>)"
    by (rule increment_success [OF assms(3,4) sm2 args])
  have c: "calls (snd (summarize_tab e p w)) =
      calls w @ [Generate (user_prompt p), Insert (archived_tab e p sm tg), Select, Update ?cols i]"
    using summarize_tab_metrics(2) [OF assms(1,2), of w] inc by simp
  have s: "system_metrics (snd (summarize_tab e p w)) = set_fields ?cols current # map ?f rest"
    using summarize_tab_metrics(1) [OF assms(1,2), of w] inc assms(5,13) by simp
  have m: "map_of (set_fields ?cols current) =
      (map_of current)(''total_tabs_closed'' \<mapsto> JInt (t + 1),
                       ''total_ram_saved_mb'' \<mapsto> vr',
                       ''total_power_saved_watts'' \<mapsto> JFloat (round2 (fl (pw + literal_0_18))))"
    by (rule map_of_set_fields3)
  have o: "\<forall>j < length rest. map_of (rest ! j) ''id'' \<noteq> Some i \<longrightarrow> map ?f rest ! j = rest ! j"
    by simp
  have "fl pw = pw"
    using assms(12) by (simp add: is_float_def)
  then have g: "pw \<le> round2 (fl (pw + literal_0_18))"
    using literal_0_18_ge by (rule round2_after_add)
  have "\<bar>literal_0_18\<bar> \<le> 400"
    using literal_0_18_ge literal_0_18_le by linarith
  with assms(12) have f: "is_float (round2 (fl (pw + literal_0_18)))"
    by (rule is_float_round2_add)
  show ?thesis
    using vr'(2,3,4,5) c s m o g f
    by (intro exI [of _ vr'] exI [of _ r'] exI [of _ "set_fields ?cols current"]
        exI [of _ "map ?f rest"]) simp
qed

theorem metrics_update_values_witness:
  "\<exists>vr' current' rest'.
      vr' = JInt 400
    \<and> system_metrics (snd (summarize_tab (demo_env demo_text) demo_payload
          (demo_world\<lparr>system_metrics := [metrics_row (JFloat demo_power), [(''id'', JInt 2)]]\<rparr>))) =
        current' # rest'
    \<and> map_of current' ''total_tabs_closed'' = Some (JInt 1)
    \<and> map_of current' ''total_ram_saved_mb'' = Some vr'
    \<and> map_of current' ''total_power_saved_watts'' = Some (JFloat (fl (101 / 100)))
    \<and> map_of current' ''id'' = Some (JInt 1)
    \<and> rest' = [[(''id'', JInt 2)]]
    \<and> fl (demo_power + literal_0_18) \<noteq> fl (101 / 100)
    \<and> demo_power \<le> fl (101 / 100)"
proof -
  let ?w = "demo_world\<lparr>system_metrics := [metrics_row (JFloat demo_power), [(''id'', JInt 2)]]\<rparr>"
  have h: "insert_execute (demo_env demo_text) = None" "select_execute (demo_env demo_text) = None"
    "update_execute (demo_env demo_text) = None"
    by (simp_all add: demo_env_def)
  have w: "system_metrics ?w = metrics_row (JFloat demo_power) # [[(''id'', JInt 2)]]"
    by simp
  have f: "map_of (metrics_row (JFloat demo_power)) ''total_tabs_closed'' = Some (JInt 0)"
    "map_of (metrics_row (JFloat demo_power)) ''total_ram_saved_mb'' = Some (JInt 0)"
    "stored_number (JInt 0)" "number (JInt 0) = Some 0"
    "map_of (metrics_row (JFloat demo_power)) ''total_power_saved_watts'' = Some (JFloat demo_power)"
    "number (JFloat demo_power) = Some demo_power"
    by (simp_all add: metrics_row_def)
  have fp: "is_float demo_power"
    unfolding is_float_def by code_simp
  have fi: "map_of (metrics_row (JFloat demo_power)) ''id'' = Some (JInt 1)"
    by (simp add: metrics_row_def)
  from metrics_update_values [OF demo_generate_summary h(1) h(2) h(3) w f fp fi, of demo_payload]
  obtain vr' and r' :: rat and current' rest' where
    a: "(\<exists>n. JInt 0 = JInt n \<and> vr' = JInt (n + 400))
         \<or> (\<exists>y. JInt 0 = JFloat y \<and> vr' = JFloat (fl (y + 400)))"
    and b: "system_metrics (snd (summarize_tab (demo_env demo_text) demo_payload ?w)) = current' # rest'"
    and c: "map_of current' =
        (map_of (metrics_row (JFloat demo_power)))(''total_tabs_closed'' \<mapsto> JInt (0 + 1),
                         ''total_ram_saved_mb'' \<mapsto> vr',
                         ''total_power_saved_watts'' \<mapsto>
                           JFloat (round2 (fl (demo_power + literal_0_18))))"
    and d: "length rest' = length [[(''id'', JInt 2)]]"
    and e: "\<forall>j < length [[(''id'', JInt 2)]]. map_of ([[(''id'', JInt 2)]] ! j) ''id'' \<noteq> Some (JInt 1)
              \<longrightarrow> rest' ! j = [[(''id'', JInt 2)]] ! j"
    and g: "demo_power \<le> round2 (fl (demo_power + literal_0_18))"
    by blast
  from a have v: "vr' = JInt 400"
    by auto
  from d e have r: "rest' = [[(''id'', JInt 2)]]"
    by (cases rest') auto
  from c have c': "map_of current' ''total_tabs_closed'' = Some (JInt 1)"
    "map_of current' ''total_ram_saved_mb'' = Some vr'"
    "map_of current' ''total_power_saved_watts'' = Some (JFloat (fl (101 / 100)))"
    "map_of current' ''id'' = Some (JInt 1)"
    by (simp_all add: metrics_row_def demo_power_written)
  from g have g': "demo_power \<le> fl (101 / 100)"
    by (simp only: demo_power_written)
  show ?thesis
    using v b c' r demo_power_unrounded g'
    by (intro exI [of _ vr'] exI [of _ current'] exI [of _ rest']) simp
qed

subsection \<open>C1: concurrent requests on the metrics row\<close>

text \<open>
  C1, at the input where the code departs from it. Two requests whose archive operations
  succeed reach the metrics step together, on a row whose counters are 0. When the store
  serves both selects before the first update, both requests compute their new values
  from the same row and the second update overwrites the first: the counters end at 1,
  400 and the float 0.18, where the claim asks for 2, 800 and 0.36. Served one after the
  other the two requests do reach 2, 800 and the float 0.36. Both orders are schedules of two requests
  (\<open>two_request_schedules\<close>), and a request that is served alone does what the handler's
  metrics step does (\<open>run_schedule_sequential\<close>).
\<close>

theorem interleaved_requests_lose_an_increment:
  "system_metrics (run_schedule (demo_env demo_text)
        [ReadMetrics 0, ReadMetrics 1, WriteMetrics 0, WriteMetrics 1] demo_world) =
       [[(''id'', JInt 1),
         (''total_tabs_closed'', JInt 1),
         (''total_ram_saved_mb'', JInt 400),
         (''total_power_saved_watts'', JFloat literal_0_18)]]
   \<and> system_metrics (run_schedule (demo_env demo_text)
        [ReadMetrics 0, WriteMetrics 0, ReadMetrics 1, WriteMetrics 1] demo_world) =
       [[(''id'', JInt 1),
         (''total_tabs_closed'', JInt 2),
         (''total_ram_saved_mb'', JInt 800),
         (''total_power_saved_watts'', JFloat (fl (36 / 100)))]]"
  by (simp add: run_schedule_def select_single_def write_metrics_def
      update_arguments_def getitem_def update_eq_id_def set_fields_def literal_0_18_float
      round2_literal_0_18 round2_twice_0_18 demo_env_def demo_world_def demo_metrics_def Let_def)

subsection \<open>C8: the validation of the request\<close>

text \<open>
  C8 as stated fails: the model of the request has no constraint besides the type of its
  fields. A body with the empty string as its URL is accepted; the model is called, the
  record is inserted and the metrics row is updated.
\<close>

theorem empty_url_is_accepted:
  "post_api_summarize (demo_env demo_text)
      (JObject [(''url'', JString []), (''title'', JString ''A''), (''content'', JString ''hello'')])
      demo_world =
   (Returned \<lparr>status = ''ok'', summary = ''s'', tags = [''x'', ''y'', ''z'']\<rparr>,
    \<lparr>archived_tabs =
       [[(''url'', JString []), (''title'', JString ''A''), (''summary'', JString ''s''),
         (''tags'', JArray [JString ''x'', JString ''y'', JString ''z'']),
         (''archived_at'', JString ''2026-01-01T00:00:00+00:00'')]],
     system_metrics =
       [[(''id'', JInt 1), (''total_tabs_closed'', JInt 1), (''total_ram_saved_mb'', JInt 400),
         (''total_power_saved_watts'', JFloat literal_0_18)]],
     calls =
       [Generate (''Title: A'' @ [nl] @ ''URL: '' @ [nl, nl] @ ''Page content:'' @ [nl] @ ''hello''),
        Insert [(''url'', JString []), (''title'', JString ''A''), (''summary'', JString ''s''),
                (''tags'', JArray [JString ''x'', JString ''y'', JString ''z'']),
                (''archived_at'', JString ''2026-01-01T00:00:00+00:00'')],
        Select,
        Update [(''total_tabs_closed'', JInt 1), (''total_ram_saved_mb'', JInt 400),
                (''total_power_saved_watts'', JFloat literal_0_18)] (JInt 1)],
     printed = [Archived ''A'' []]\<rparr>)"
proof -
  have v: "validate_request
      (JObject [(''url'', JString []), (''title'', JString ''A''), (''content'', JString ''hello'')]) =
      Some \<lparr>url = [], title = ''A'', content = ''hello''\<rparr>"
    by (simp add: validate_request_def str_field_def)
  have i: "insert_archived_tab (demo_env demo_text) \<lparr>url = [], title = ''A'', content = ''hello''\<rparr>
      (JString ''s'') (JArray [JString ''x'', JString ''y'', JString ''z''])
      (demo_world\<lparr>calls := calls demo_world @
         [Generate (user_prompt \<lparr>url = [], title = ''A'', content = ''hello''\<rparr>)]\<rparr>) =
      (None, \<lparr>archived_tabs =
         [[(''url'', JString []), (''title'', JString ''A''), (''summary'', JString ''s''),
           (''tags'', JArray [JString ''x'', JString ''y'', JString ''z'']),
           (''archived_at'', JString ''2026-01-01T00:00:00+00:00'')]],
        system_metrics = [demo_metrics],
        calls = [Generate (user_prompt \<lparr>url = [], title = ''A'', content = ''hello''\<rparr>),
          Insert [(''url'', JString []), (''title'', JString ''A''), (''summary'', JString ''s''),
                (''tags'', JArray [JString ''x'', JString ''y'', JString ''z'']),
                (''archived_at'', JString ''2026-01-01T00:00:00+00:00'')]],
        printed = []\<rparr>)"
    by (simp add: insert_archived_tab_def archived_tab_def demo_env_def demo_world_def Let_def)
  show ?thesis
    unfolding post_api_summarize_def v summarize_tab_def demo_generate_summary
    by (simp add: i Let_def)
      (simp add: increment_eq select_single_def write_metrics_def update_arguments_def
        getitem_def update_eq_id_def set_fields_def literal_0_18_float round2_literal_0_18
        demo_env_def demo_metrics_def user_prompt_def Let_def)
qed


text \<open>
  C8, amended. A body whose \<open>url\<close>, \<open>title\<close> and \<open>content\<close> are strings, the URL empty or
  not, passes the validation and is handled as the request of these three strings: the
  model is called with the prompt built from them. A body in which one of the three
  fields is missing or is not a string, and a body that is not an object, is refused
  before the handler runs and leaves the store, the calls and the printed lines as they
  were: no model call, no insert, no metrics read or update.
\<close>

theorem request_validation:
  "(map_of kvs ''url'' = Some (JString u) \<and> map_of kvs ''title'' = Some (JString t)
      \<and> map_of kvs ''content'' = Some (JString c) \<longrightarrow>
      post_api_summarize e (JObject kvs) w = summarize_tab e \<lparr>url = u, title = t, content = c\<rparr> w
      \<and> (\<exists>rest. calls (snd (post_api_summarize e (JObject kvs) w)) =
            calls w @ Generate (user_prompt \<lparr>url = u, title = t, content = c\<rparr>) # rest))
   \<and> ((\<exists>k \<in> {''url'', ''title'', ''content''}. \<forall>s. map_of kvs k \<noteq> Some (JString s)) \<longrightarrow>
        post_api_summarize e (JObject kvs) w = (RequestValidationError, w))
   \<and> ((\<forall>kvs. body \<noteq> JObject kvs) \<longrightarrow>
        post_api_summarize e body w = (RequestValidationError, w))"
proof (intro conjI impI)
  assume a: "map_of kvs ''url'' = Some (JString u) \<and> map_of kvs ''title'' = Some (JString t)
      \<and> map_of kvs ''content'' = Some (JString c)"
  then have v: "validate_request (JObject kvs) = Some \<lparr>url = u, title = t, content = c\<rparr>"
    by (simp add: validate_request_strings)
  then show p: "post_api_summarize e (JObject kvs) w = summarize_tab e \<lparr>url = u, title = t, content = c\<rparr> w"
    by (simp add: post_api_summarize_def)
  show "\<exists>rest. calls (snd (post_api_summarize e (JObject kvs) w)) =
            calls w @ Generate (user_prompt \<lparr>url = u, title = t, content = c\<rparr>) # rest"
    unfolding p by (rule summarize_tab_first_call)
next
  assume "\<exists>k \<in> {''url'', ''title'', ''content''}. \<forall>s. map_of kvs k \<noteq> Some (JString s)"
  then have "validate_request (JObject kvs) = None"
    using validate_request_bad_field by blast
  then show "post_api_summarize e (JObject kvs) w = (RequestValidationError, w)"
    by (simp add: post_api_summarize_def)
next
  assume "\<forall>kvs. body \<noteq> JObject kvs"
  then have "validate_request body = None"
    by (rule validate_request_not_object)
  then show "post_api_summarize e body w = (RequestValidationError, w)"
    by (simp add: post_api_summarize_def)
qed


theorem request_validation_witness:
  "post_api_summarize (demo_env demo_text)
      (JObject [(''url'', JString []), (''title'', JString ''A''), (''content'', JString ''hello'')])
      demo_world =
     summarize_tab (demo_env demo_text) \<lparr>url = [], title = ''A'', content = ''hello''\<rparr> demo_world
   \<and> post_api_summarize (demo_env demo_text)
      (JObject [(''url'', JInt 5), (''title'', JString ''A''), (''content'', JString ''hello'')])
      demo_world = (RequestValidationError, demo_world)
   \<and> post_api_summarize (demo_env demo_text) (JString ''http://a'') demo_world =
      (RequestValidationError, demo_world)"
  using request_validation [where kvs = "[(''url'', JString []), (''title'', JString ''A''), (''content'', JString ''hello'')]"
      and u = "[]" and t = "''A''" and c = "''hello''" and e = "demo_env demo_text" and w = demo_world
      and body = "JString ''http://a''"]
    request_validation [where kvs = "[(''url'', JInt 5), (''title'', JString ''A''), (''content'', JString ''hello'')]"
      and u = "[]" and t = "''A''" and c = "''hello''" and e = "demo_env demo_text" and w = demo_world
      and body = "JString ''http://a''"]
  by simp

subsection \<open>C6: a fenced answer parses like its body\<close>

text \<open>
  C6. Let the answer of the model be a fence line (three backticks and a tag \<open>tag\<close> that has
  no line break in it), a body \<open>B\<close>, and a closing fence line (three backticks, white space
  \<open>ws\<close> after them or none). A JSON text that decodes to an object begins, after white
  space, with a brace, so not with a fence: that is the one fact about \<open>B\<close> the theorem
  needs. Then, for every decoder, the \<open>try\<close> block gives on the fenced answer what it
  gives on \<open>B\<close> alone (the same summary and tags, or the same exception), and so does the
  handler as a whole. In particular, on the example request with the answer
  \<open>demo_text\<close> the handler returns status \<open>ok\<close>, summary \<open>s\<close> and tags \<open>x\<close>, \<open>y\<close>, \<open>z\<close>,
  the store has one new archive record, with the URL \<open>http://a\<close>, and the summary has no
  fence in it.
\<close>

theorem fenced_answer_parses_like_its_body:
  assumes "nl \<notin> set tag" and "\<not> startswith (strip B) fence" and "\<forall>c \<in> set ws. isspace c"
  shows "parse_model_text loads (fence @ tag @ nl # B @ nl # fence @ ws) = parse_model_text loads B
     \<and> summarize_tab (e\<lparr>generate_content := \<lambda>prompt. Inr (fence @ tag @ nl # B @ nl # fence @ ws)\<rparr>) p w =
         summarize_tab (e\<lparr>generate_content := \<lambda>prompt. Inr B\<rparr>) p w
     \<and> fst (summarize_tab (demo_env demo_text) demo_payload w) =
         Returned \<lparr>status = ''ok'', summary = ''s'', tags = [''x'', ''y'', ''z'']\<rparr>
     \<and> archived_tabs (snd (summarize_tab (demo_env demo_text) demo_payload w)) =
         archived_tabs w @
         [[(''url'', JString ''http://a''), (''title'', JString ''A''), (''summary'', JString ''s''),
           (''tags'', JArray [JString ''x'', JString ''y'', JString ''z'']),
           (''archived_at'', JString (utcnow_isoformat (demo_env demo_text)))]]
     \<and> rfind fence ''s'' = None"
proof -
  have p: "parse_model_text loads (fence @ tag @ nl # B @ nl # fence @ ws) = parse_model_text loads B"
    for loads
    by (rule parse_fenced_eq [OF assms])
  have g: "generate_summary (e\<lparr>generate_content := \<lambda>prompt. Inr (fence @ tag @ nl # B @ nl # fence @ ws)\<rparr>) p =
      generate_summary (e\<lparr>generate_content := \<lambda>prompt. Inr B\<rparr>) p"
    by (simp only: generate_summary_text p)
  have s: "summarize_tab (e\<lparr>generate_content := \<lambda>prompt. Inr (fence @ tag @ nl # B @ nl # fence @ ws)\<rparr>) p w =
      summarize_tab (e\<lparr>generate_content := \<lambda>prompt. Inr B\<rparr>) p w"
    by (rule summarize_tab_cong [OF g]) simp_all
  have i: "insert_execute (demo_env demo_text) = None"
    by (simp add: demo_env_def)
  note ex = summarize_tab_archived(1,2) [OF demo_generate_summary i, of demo_payload w]
  have f: "rfind fence ''s'' = None"
    by (simp add: fence_def startswith_def)
  show ?thesis
    using p s ex f by (simp add: archived_tab_def demo_payload_def)
qed

theorem fenced_answer_parses_like_its_body_witness:
  "nl \<notin> set ''json'' \<and> \<not> startswith (strip demo_body) fence
   \<and> parse_model_text json_loads_fragment (fence @ ''json'' @ nl # demo_body @ nl # fence @ [nl]) =
       parse_model_text json_loads_fragment demo_body
   \<and> parse_model_text json_loads_fragment demo_body =
       Inr (JString ''s'', JArray [JString ''x'', JString ''y'', JString ''z''])"
proof -
  have a: "nl \<notin> set ''json''"
    by (simp add: nl_def)
  have b: "\<not> startswith (strip demo_body) fence"
    by (simp add: demo_body_def strip_def rstrip_def lstrip_def isspace_def startswith_def fence_def)
  have c: "\<forall>c \<in> set [nl]. isspace c"
    by (simp add: nl_space)
  have d: "parse_model_text json_loads_fragment demo_body =
       Inr (JString ''s'', JArray [JString ''x'', JString ''y'', JString ''z''])"
    by (simp add: parse_model_text_def demo_body_def strip_def rstrip_def lstrip_def isspace_def
        strip_fences_def startswith_def fence_def json_loads_fragment_def json_ws_def dict_get_def)
  show ?thesis
    using fenced_answer_parses_like_its_body [OF a b c, of json_loads_fragment "demo_env []"
        demo_payload demo_world] a b d
    by simp
qed

subsection \<open>C7: answers that are not the expected JSON\<close>

text \<open>
  C7, at the input where the code departs from it. The model answers with a JSON object
  whose tags are a list that holds a string and a number. The handler tests only that the
  tags are a list, so step 1 accepts the answer: the record is inserted with these tags,
  the counters are advanced and the line is printed. Only then the response is built, and
  the constructor of \<open>SummarizeResponse\<close>, which declares \<open>tags: list[str]\<close>, raises
  \<open>ValidationError\<close> outside every \<open>try\<close>: the request fails with status 500 after it
  has changed the store, where the claim asks for a 502 of the malformed answer. For the
  other answers the claim names (no JSON, a summary that is missing or empty, tags that
  are not a list, a value that is not an object) the handler does raise 502 with a
  detail of bounded length and the model call as its only call (\<open>malformed_answer_502\<close>).
\<close>

theorem non_string_tag_is_archived_then_fails:
  \<open>summarize_tab (demo_env ''{"summary":"s","tags":["x",1]}'') demo_payload demo_world =
     (Uncaught ValidationError,
      \<lparr>archived_tabs =
         [[(''url'', JString ''http://a''), (''title'', JString ''A''), (''summary'', JString ''s''),
           (''tags'', JArray [JString ''x'', JInt 1]),
           (''archived_at'', JString ''2026-01-01T00:00:00+00:00'')]],
       system_metrics =
         [[(''id'', JInt 1), (''total_tabs_closed'', JInt 1), (''total_ram_saved_mb'', JInt 400),
           (''total_power_saved_watts'', JFloat literal_0_18)]],
       calls =
         [Generate (user_prompt demo_payload),
          Insert [(''url'', JString ''http://a''), (''title'', JString ''A''), (''summary'', JString ''s''),
                  (''tags'', JArray [JString ''x'', JInt 1]),
                  (''archived_at'', JString ''2026-01-01T00:00:00+00:00'')],
          Select,
          Update [(''total_tabs_closed'', JInt 1), (''total_ram_saved_mb'', JInt 400),
                  (''total_power_saved_watts'', JFloat literal_0_18)] (JInt 1)],
       printed = [Archived ''A'' ''http://a'']\<rparr>)\<close>
proof -
  have g: \<open>generate_summary (demo_env ''{"summary":"s","tags":["x",1]}'') demo_payload =
      Inr (JString ''s'', JArray [JString ''x'', JInt 1])\<close>
    by (simp add: generate_summary_def try_block_def demo_env_def parse_model_text_def
      strip_def rstrip_def lstrip_def isspace_def strip_fences_def startswith_def fence_def
      json_loads_fragment_def json_ws_def dict_get_def scan_int_def is_digit_def)
  have i: \<open>insert_archived_tab (demo_env ''{"summary":"s","tags":["x",1]}'') demo_payload
      (JString ''s'') (JArray [JString ''x'', JInt 1])
      (demo_world\<lparr>calls := calls demo_world @ [Generate (user_prompt demo_payload)]\<rparr>) =
      (None, \<lparr>archived_tabs =
         [[(''url'', JString ''http://a''), (''title'', JString ''A''), (''summary'', JString ''s''),
           (''tags'', JArray [JString ''x'', JInt 1]),
           (''archived_at'', JString ''2026-01-01T00:00:00+00:00'')]],
        system_metrics = [demo_metrics],
        calls = [Generate (user_prompt demo_payload),
          Insert [(''url'', JString ''http://a''), (''title'', JString ''A''), (''summary'', JString ''s''),
                (''tags'', JArray [JString ''x'', JInt 1]),
                (''archived_at'', JString ''2026-01-01T00:00:00+00:00'')]],
        printed = []\<rparr>)\<close>
    by (simp add: insert_archived_tab_def archived_tab_def demo_env_def demo_world_def
        demo_payload_def Let_def)
  show ?thesis
    unfolding summarize_tab_def g
    by (simp add: i Let_def)
      (simp add: increment_eq select_single_def write_metrics_def update_arguments_def
        getitem_def update_eq_id_def set_fields_def literal_0_18_float round2_literal_0_18
        demo_env_def demo_metrics_def demo_payload_def Let_def)
qed

subsection \<open>C10: the removal of the fences\<close>

text \<open>
  C10 as stated fails on an answer that begins with a fence and has no line break: the
  source takes the second piece of the split at the first line break, there is none, and
  the \<open>IndexError\<close> is reported as a 502 of the model step; no payload is formed and the
  decoder is not reached.
\<close>

theorem one_line_fence_is_an_index_error:
  "strip_fences (strip ''```json'') =
     Inl (Exn IndexError ''list index out of range'', Some ''```json'')
   \<and> summarize_tab (demo_env ''```json'') demo_payload demo_world =
       (HTTPException 502 ''Vertex AI error: list index out of range'',
        demo_world\<lparr>calls := [Generate (user_prompt demo_payload)]\<rparr>)"
  by (simp add: summarize_tab_def generate_summary_def try_block_def demo_env_def
      parse_model_text_def strip_def rstrip_def lstrip_def isspace_def strip_fences_def
      startswith_def fence_def split1_def index_def nl_def except_clauses_def demo_world_def)



text \<open>
  C10, amended. Let the answer, stripped of surrounding white space, begin with three
  backticks. If it has a line break, let \<open>line\<close> be the text before the first one and
  \<open>rest\<close> the text after it. When three backticks occur in \<open>rest\<close> and \<open>a\<close> is the text
  before their last occurrence, the payload is \<open>a\<close> stripped, whatever follows is dropped
  and no error is raised for it: the cut is at the closing fence when there is one, and
  inside the body when the body contains three backticks and no later ones follow. When
  three backticks do not occur in \<open>rest\<close>, the payload is all of \<open>rest\<close>, stripped. If the
  stripped answer has no line break, no payload is formed: the handler raises 502 with
  the detail \<open>Vertex AI error: list index out of range\<close>.
\<close>

theorem fence_removal:
  assumes "startswith (strip text) fence"
  shows "(\<forall>line rest a b.
            strip text = line @ nl # rest \<and> nl \<notin> set line \<and> rest = a @ fence @ b
            \<and> (\<forall>a' b'. rest = a' @ fence @ b' \<longrightarrow> length a' \<le> length a) \<longrightarrow>
            strip_fences (strip text) = Inr (strip a))
     \<and> (\<forall>line rest.
            strip text = line @ nl # rest \<and> nl \<notin> set line \<and> (\<forall>a b. rest \<noteq> a @ fence @ b) \<longrightarrow>
            strip_fences (strip text) = Inr (strip rest))
     \<and> (nl \<notin> set (strip text) \<longrightarrow>
            strip_fences (strip text) =
              Inl (Exn IndexError ''list index out of range'', Some (strip text))
            \<and> (generate_content e (user_prompt p) = Inr text \<longrightarrow>
                 summarize_tab e p w =
                   (HTTPException 502 ''Vertex AI error: list index out of range'',
                    w\<lparr>calls := calls w @ [Generate (user_prompt p)]\<rparr>)))"
proof (intro conjI allI impI)
  fix line rest a b
  assume h: "strip text = line @ nl # rest \<and> nl \<notin> set line \<and> rest = a @ fence @ b
      \<and> (\<forall>a' b'. rest = a' @ fence @ b' \<longrightarrow> length a' \<le> length a)"
  then have n: "nl \<in> set (strip text)" by simp
  have f: "fence \<noteq> []" by (simp add: fence_def)
  from h have r: "tl (dropWhile (\<lambda>x. x \<noteq> nl) (strip text)) = rest"
    by (simp add: split_at_first_nl)
  from h have "rsplit1 fence rest = [a, b]"
    using rsplit1_last [OF f, of rest a b] by blast
  then show "strip_fences (strip text) = Inr (strip a)"
    using strip_fences_lines [OF assms n] r by simp
next
  fix line rest
  assume h: "strip text = line @ nl # rest \<and> nl \<notin> set line \<and> (\<forall>a b. rest \<noteq> a @ fence @ b)"
  then have n: "nl \<in> set (strip text)" by simp
  have f: "fence \<noteq> []" by (simp add: fence_def)
  from h have r: "tl (dropWhile (\<lambda>x. x \<noteq> nl) (strip text)) = rest"
    by (simp add: split_at_first_nl)
  from h have "rsplit1 fence rest = [rest]"
    using rsplit1_absent [OF f, of rest] by blast
  then show "strip_fences (strip text) = Inr (strip rest)"
    using strip_fences_lines [OF assms n] r by simp
next
  assume n: "nl \<notin> set (strip text)"
  show s: "strip_fences (strip text) =
      Inl (Exn IndexError ''list index out of range'', Some (strip text))"
    by (rule strip_fences_one_line [OF assms n])
  assume g: "generate_content e (user_prompt p) = Inr text"
  have "parse_model_text (json_loads e) text =
      Inl (Exn IndexError ''list index out of range'', Some (strip text))"
    by (simp add: parse_model_text_def s)
  from summarize_tab_parse_error [OF g this]
  show "summarize_tab e p w =
      (HTTPException 502 ''Vertex AI error: list index out of range'',
       w\<lparr>calls := calls w @ [Generate (user_prompt p)]\<rparr>)"
    by (simp add: except_clauses_def)
qed


theorem fence_removal_witness:
  \<open>strip_fences (strip (''```json'' @ nl # ''{"summary":"a```b","tags":[]}'')) =
     Inr ''{"summary":"a''
   \<and> strip_fences (strip (''```json'' @ nl # ''{"summary":"a```b","tags":[]}'' @ nl # ''```'')) =
     Inr ''{"summary":"a```b","tags":[]}''
   \<and> strip_fences (strip (''```'' @ nl # ''{"summary":"s","tags":[]}'')) =
     Inr ''{"summary":"s","tags":[]}''
   \<and> fst (summarize_tab (demo_env ''```'') demo_payload demo_world) =
     HTTPException 502 ''Vertex AI error: list index out of range''\<close>
proof -
  let ?body = \<open>''{"summary":"a```b","tags":[]}''\<close>
  let ?t1 = "''```json'' @ nl # ?body"
  let ?t2 = "''```json'' @ nl # ?body @ nl # ''```''"
  let ?t3 = \<open>''```'' @ nl # ''{"summary":"s","tags":[]}''\<close>
  have f: "fence \<noteq> []"
    by (simp add: fence_def)
  have n: "nl \<notin> set ''```json''" "nl \<notin> set ''```''"
    by (simp_all add: nl_def)
  have st: "strip ?t1 = ?t1" "strip ?t2 = ?t2" "strip ?t3 = ?t3" "strip ''```'' = ''```''"
    by (simp_all add: strip_def rstrip_def lstrip_def isspace_def nl_def)
  have sw: "startswith (strip ?t1) fence" "startswith (strip ?t2) fence"
    "startswith (strip ?t3) fence" "startswith (strip ''```'') fence"
    unfolding st by (simp_all add: startswith_def fence_def)
  have r1: \<open>rfind fence ?body = Some (length ''{"summary":"a'')\<close>
    by (simp add: fence_def startswith_def)
  have d1: \<open>?body = ''{"summary":"a'' @ fence @ ''b","tags":[]}''\<close>
    by (simp add: fence_def)
  have m1: \<open>\<forall>a' b'. ?body = a' @ fence @ b' \<longrightarrow> length a' \<le> length ''{"summary":"a''\<close>
    using rfind_Some [OF f r1] by blast
  have h1: \<open>strip ?t1 = ''```json'' @ nl # ?body \<and> nl \<notin> set ''```json''
      \<and> ?body = ''{"summary":"a'' @ fence @ ''b","tags":[]}''
      \<and> (\<forall>a' b'. ?body = a' @ fence @ b' \<longrightarrow> length a' \<le> length ''{"summary":"a'')\<close>
    by (rule conjI [OF st(1) conjI [OF n(1) conjI [OF d1 m1]]])
  have c1: \<open>strip_fences (strip ?t1) = Inr (strip ''{"summary":"a'')\<close>
    by (rule fence_removal [OF sw(1), THEN conjunct1, rule_format, OF h1])
  have r2: "rfind fence ((?body @ [nl]) @ fence) = Some (length (?body @ [nl]))"
    by (rule rfind_append_sep [OF f])
  have e2: "?body @ nl # ''```'' = (?body @ [nl]) @ fence"
    by (simp add: fence_def)
  have s2: "strip ?t2 = ''```json'' @ nl # (?body @ nl # ''```'')"
    using st(2) by simp
  have d2: "?body @ nl # ''```'' = (?body @ [nl]) @ fence @ []"
    by (simp add: fence_def)
  have m2: "\<forall>a' b'. ?body @ nl # ''```'' = a' @ fence @ b' \<longrightarrow> length a' \<le> length (?body @ [nl])"
    using rfind_Some [OF f r2] unfolding e2 [symmetric] by blast
  have h2: "strip ?t2 = ''```json'' @ nl # (?body @ nl # ''```'') \<and> nl \<notin> set ''```json''
      \<and> ?body @ nl # ''```'' = (?body @ [nl]) @ fence @ []
      \<and> (\<forall>a' b'. ?body @ nl # ''```'' = a' @ fence @ b' \<longrightarrow> length a' \<le> length (?body @ [nl]))"
    by (rule conjI [OF s2 conjI [OF n(1) conjI [OF d2 m2]]])
  have c2: "strip_fences (strip ?t2) = Inr (strip (?body @ [nl]))"
    by (rule fence_removal [OF sw(2), THEN conjunct1, rule_format, OF h2])
  have r3: \<open>rfind fence ''{"summary":"s","tags":[]}'' = None\<close>
    by (simp add: fence_def startswith_def)
  have m3: \<open>\<forall>a b. ''{"summary":"s","tags":[]}'' \<noteq> a @ fence @ b\<close>
    using r3 rfind_None_iff [OF f, of \<open>''{"summary":"s","tags":[]}''\<close>] by blast
  have h3: \<open>strip ?t3 = ''```'' @ nl # ''{"summary":"s","tags":[]}'' \<and> nl \<notin> set ''```''
      \<and> (\<forall>a b. ''{"summary":"s","tags":[]}'' \<noteq> a @ fence @ b)\<close>
    by (rule conjI [OF st(3) conjI [OF n(2) m3]])
  have c3: \<open>strip_fences (strip ?t3) = Inr (strip ''{"summary":"s","tags":[]}'')\<close>
    by (rule fence_removal [OF sw(3), THEN conjunct2, THEN conjunct1, rule_format, OF h3])
  have n4: "nl \<notin> set (strip ''```'')"
    unfolding st by (simp add: nl_def)
  have g4: "generate_content (demo_env ''```'') (user_prompt demo_payload) = Inr ''```''"
    by (simp add: demo_env_def)
  have c4: "summarize_tab (demo_env ''```'') demo_payload demo_world =
      (HTTPException 502 ''Vertex AI error: list index out of range'',
       demo_world\<lparr>calls := calls demo_world @ [Generate (user_prompt demo_payload)]\<rparr>)"
    using fence_removal [OF sw(4), of "demo_env ''```''" demo_payload demo_world] n4 g4 by simp
  show ?thesis
    using c1 c2 c3 c4
    by (simp add: strip_def rstrip_def lstrip_def isspace_def nl_def)
qed

end
